theory Spec2Isabelle
  imports Complex_Main
begin

section \<open>Sputnik-Enters-Kerbal-Space: the ascent autopilot script\<close>

text \<open>
  A shallow embedding of \<^verbatim>\<open>src/code.py\<close>: the two loggers (\<^verbatim>\<open>DualLogger\<close>,
  \<^verbatim>\<open>FlightDataLogger\<close>) and the mission script \<^verbatim>\<open>main\<close>.

  Conventions of the embedding.
  \<^item> Python floats are modelled as \<^typ>\<open>real\<close>: every comparison against a threshold is
    exact on finite floats; the one arithmetic update the properties depend on
    (\<^verbatim>\<open>target_pitch -= 0.3\<close>) is idealised, without rounding. NaN is not modelled.
  \<^item> The log texts of the source are Russian. A message is kept as an ASCII rendering of
    its format string together with the values formatted into it, in source order;
    the marks of the source are written \<^verbatim>\<open>[ok]\<close>, \<^verbatim>\<open>[warn]\<close>, \<^verbatim>\<open>[fail]\<close>.
  \<^item> Everything the script does to the outside is an \<open>event\<close>, in program order.
\<close>

subsection \<open>Events\<close>

datatype error = Exception string

datatype arg = Num real | Txt string

datatype sas_mode = Radial | Prograde

datatype command =
    SetThrottle real
  | ActivateNextStage
  | SetSas bool
  | SetSasMode sas_mode
  | ApSetSurfaceFrame
  | ApEngage
  | ApTarget real real
  | ApWait
  | ApDisengage
  | DeployPanel nat
  | CloseConnection

datatype recorder_call =
    RecCreate
  | RecLogData
  | RecLogStatus string "arg list"
  | RecClose

datatype event =
    Log string "arg list" bool
  | Section string
  | Cmd command
  | Rec recorder_call
  | Sleep real
  | Prompt string

text \<open>
  \<open>Log t as st\<close> is \<^verbatim>\<open>logger.log(f"...", st)\<close> with format string \<open>t\<close> and values \<open>as\<close>;
  \<open>Section t\<close> is \<^verbatim>\<open>logger.section(t)\<close>; \<open>Rec c\<close> is a call of a method of the flight-data
  recorder; \<open>Sleep d\<close> is \<^verbatim>\<open>time.sleep(d)\<close>; \<open>Prompt t\<close> is \<^verbatim>\<open>input(t)\<close>.
\<close>

definition say :: "string \<Rightarrow> arg list \<Rightarrow> event" where
  "say t as = Log t as True"

subsection \<open>DualLogger (lines 7-38)\<close>

text \<open>
  The console and the event file are the texts written so far. \<^verbatim>\<open>datetime.now()\<close> is an
  input of every call; \<^verbatim>\<open>strftime('%H:%M:%S')\<close> prints two digits for each field.
  \<^verbatim>\<open>str.upper\<close> is Python's own and is a parameter of \<open>section\<close>.
\<close>

abbreviation newline :: char where
  "newline \<equiv> CHR 0x0A"

record time_of_day =
  hour :: nat
  minute :: nat
  second :: nat

definition digits :: string where
  "digits = ''0123456789''"

definition two_digits :: "nat \<Rightarrow> string" where
  "two_digits n = [digits ! (n div 10 mod 10), digits ! (n mod 10)]"

definition strftime_HMS :: "time_of_day \<Rightarrow> string" where
  "strftime_HMS t = two_digits (hour t) @ '':'' @ two_digits (minute t) @ '':'' @ two_digits (second t)"

record dual_logger =
  console :: string
  event_file :: string

definition log :: "time_of_day \<Rightarrow> string \<Rightarrow> bool \<Rightarrow> dual_logger \<Rightarrow> dual_logger" where
  "log now message show_time L =
     (let timestamp = strftime_HMS now;
          log_message = (if show_time then ''['' @ timestamp @ ''] '' @ message else message)
      in L\<lparr>console := console L @ log_message @ [newline],
            event_file := event_file L @ log_message @ [newline]\<rparr>)"

definition border :: string where
  "border = replicate 50 CHR ''=''"

definition section_banner ::
  "(string \<Rightarrow> string) \<Rightarrow> time_of_day \<Rightarrow> time_of_day \<Rightarrow> time_of_day \<Rightarrow> string \<Rightarrow> dual_logger \<Rightarrow> dual_logger" where
  "section_banner upper t1 t2 t3 title L =
     log t3 border False (log t2 (upper title) False (log t1 border False L))"

text \<open>The lines of a text, as a reader of the file or of the console sees them.\<close>

fun split_lines :: "string \<Rightarrow> string list" where
  "split_lines [] = []"
| "split_lines (c # cs) =
     (if c = newline then [] # split_lines cs
      else (case split_lines cs of [] \<Rightarrow> [[c]] | l # ls \<Rightarrow> (c # l) # ls))"

text \<open>An instance of \<^verbatim>\<open>str.upper\<close>, on ASCII letters.\<close>

definition ascii_upper :: "string \<Rightarrow> string" where
  "ascii_upper s =
     map (\<lambda>c. case map_of (zip ''abcdefghijklmnopqrstuvwxyz'' ''ABCDEFGHIJKLMNOPQRSTUVWXYZ'') c of
                Some u \<Rightarrow> u | None \<Rightarrow> c) s"

subsection \<open>FlightDataLogger (lines 41-151)\<close>

text \<open>
  The eleven column titles of \<^verbatim>\<open>_init_file\<close>, in source order: time (s), altitude (km),
  speed (m/s), vertical speed (m/s), horizontal speed (m/s), apoapsis (km), periapsis (km),
  pitch (deg), heading (deg), fuel, oxidizer.
\<close>

datatype column =
    ColTime | ColAltitudeKm | ColSpeed | ColVertSpeed | ColHorSpeed
  | ColApoapsisKm | ColPeriapsisKm | ColPitch | ColHeading | ColFuel | ColOxidizer

definition headers :: "column list" where
  "headers = [ColTime, ColAltitudeKm, ColSpeed, ColVertSpeed, ColHorSpeed,
              ColApoapsisKm, ColPeriapsisKm, ColPitch, ColHeading, ColFuel, ColOxidizer]"

text \<open>A formatted field \<^verbatim>\<open>f"{v:w.pf}"\<close>: width, precision, value.\<close>

datatype cell = Cell nat nat real

fun cell_value :: "cell \<Rightarrow> real" where
  "cell_value (Cell w p v) = v"

text \<open>What \<^verbatim>\<open>log_data\<close> reads, each read returning a value or raising.\<close>

record readings =
  altitude_stream :: "error + real"
  speed_stream :: "error + real"
  vertical_speed_stream :: "error + real"
  horizontal_speed_stream :: "error + real"
  apoapsis_stream :: "error + real"
  periapsis_stream :: "error + real"
  pitch_stream :: "error + real"
  heading_stream :: "error + real"
  liquid_fuel_amount :: "error + real"
  oxidizer_amount :: "error + real"

definition reads :: "readings \<Rightarrow> (error + real) list" where
  "reads rd = [altitude_stream rd, speed_stream rd, vertical_speed_stream rd,
               horizontal_speed_stream rd, apoapsis_stream rd, periapsis_stream rd,
               pitch_stream rd, heading_stream rd, liquid_fuel_amount rd, oxidizer_amount rd]"

datatype file_line =
    Rule60
  | TitleLine
  | StartedAt string
  | VesselLine string
  | BodyLine string
  | BlankLine
  | HeaderRow "column list"
  | Dashes120
  | DataRow "cell list"
  | StatusLine string string
  | SummaryTitle
  | TotalFlightTime real
  | EndedAt string

record flight_data_logger =
  start_time :: real
  data_file :: "file_line list"
  printed :: "error list"

definition init_file :: "string \<Rightarrow> string \<Rightarrow> string \<Rightarrow> file_line list" where
  "init_file date vessel body =
     [Rule60, TitleLine, StartedAt date, VesselLine vessel, BodyLine body, Rule60, BlankLine,
      HeaderRow headers, Dashes120]"

definition new_logger :: "real \<Rightarrow> string \<Rightarrow> string \<Rightarrow> string \<Rightarrow> flight_data_logger" where
  "new_logger now date vessel body =
     \<lparr>start_time = now, data_file = init_file date vessel body, printed = []\<rparr>"

definition then_read :: "error + 'a \<Rightarrow> ('a \<Rightarrow> error + 'b) \<Rightarrow> error + 'b" where
  "then_read r k = (case r of Inl e \<Rightarrow> Inl e | Inr v \<Rightarrow> k v)"

text \<open>The body of the \<^verbatim>\<open>try\<close> block up to the list \<^verbatim>\<open>data_line\<close> (lines 102-129).\<close>

definition data_line :: "real \<Rightarrow> readings \<Rightarrow> error + cell list" where
  "data_line current_time rd =
     then_read (altitude_stream rd) (\<lambda>altitude.
     then_read (speed_stream rd) (\<lambda>speed.
     then_read (vertical_speed_stream rd) (\<lambda>v_speed.
     then_read (horizontal_speed_stream rd) (\<lambda>h_speed.
     then_read (apoapsis_stream rd) (\<lambda>apoapsis.
     then_read (periapsis_stream rd) (\<lambda>periapsis.
     then_read (pitch_stream rd) (\<lambda>pitch.
     then_read (heading_stream rd) (\<lambda>heading.
     then_read (liquid_fuel_amount rd) (\<lambda>fuel.
     then_read (oxidizer_amount rd) (\<lambda>oxidizer.
       Inr [Cell 6 1 current_time,
            Cell 8 2 (altitude / 1000),
            Cell 8 1 speed,
            Cell 8 1 v_speed,
            Cell 8 1 h_speed,
            Cell 8 2 (apoapsis / 1000),
            Cell 8 2 (periapsis / 1000),
            Cell 8 1 pitch,
            Cell 8 1 heading,
            Cell 8 1 fuel,
            Cell 8 1 oxidizer]))))))))))"

text \<open>
  \<^verbatim>\<open>log_data\<close>: the row is appended when the \<^verbatim>\<open>try\<close> block runs through; otherwise the
  handler prints the exception. The result is \<open>Inr\<close> when the call returns and would be
  \<open>Inl\<close> if it raised.
\<close>

definition log_data :: "real \<Rightarrow> readings \<Rightarrow> flight_data_logger \<Rightarrow> error + flight_data_logger" where
  "log_data now rd R =
     (case data_line (now - start_time R) rd of
        Inr row \<Rightarrow> Inr (R\<lparr>data_file := data_file R @ [DataRow row]\<rparr>)
      | Inl e \<Rightarrow> Inr (R\<lparr>printed := printed R @ [e]\<rparr>))"

definition log_status :: "string \<Rightarrow> string \<Rightarrow> flight_data_logger \<Rightarrow> flight_data_logger" where
  "log_status hms status R = R\<lparr>data_file := data_file R @ [BlankLine, StatusLine hms status]\<rparr>"

definition close_logger :: "real \<Rightarrow> string \<Rightarrow> flight_data_logger \<Rightarrow> flight_data_logger" where
  "close_logger now date R =
     R\<lparr>data_file := data_file R @
        [BlankLine, Rule60, SummaryTitle, TotalFlightTime (now - start_time R), EndedAt date, Rule60]\<rparr>"

datatype recorder_op =
    OpLogData real readings
  | OpLogStatus string string
  | OpClose real string

fun apply_op :: "recorder_op \<Rightarrow> flight_data_logger \<Rightarrow> flight_data_logger" where
  "apply_op (OpLogData now rd) R = (case log_data now rd R of Inr R' \<Rightarrow> R' | Inl e \<Rightarrow> R)"
| "apply_op (OpLogStatus hms status) R = log_status hms status R"
| "apply_op (OpClose now date) R = close_logger now date R"

fun is_header :: "file_line \<Rightarrow> bool" where
  "is_header (HeaderRow cs) = True"
| "is_header l = False"

fun data_row :: "file_line \<Rightarrow> cell list option" where
  "data_row (DataRow row) = Some row"
| "data_row l = None"

definition data_rows :: "file_line list \<Rightarrow> cell list list" where
  "data_rows f = List.map_filter data_row f"

text \<open>What each column title names, in terms of the reads of a sample taken at time \<open>t\<close>.\<close>

definition quantity :: "real \<Rightarrow> readings \<Rightarrow> column \<Rightarrow> error + real" where
  "quantity t rd c =
     (case c of
        ColTime \<Rightarrow> Inr t
      | ColAltitudeKm \<Rightarrow> map_sum id (\<lambda>v. v / 1000) (altitude_stream rd)
      | ColSpeed \<Rightarrow> speed_stream rd
      | ColVertSpeed \<Rightarrow> vertical_speed_stream rd
      | ColHorSpeed \<Rightarrow> horizontal_speed_stream rd
      | ColApoapsisKm \<Rightarrow> map_sum id (\<lambda>v. v / 1000) (apoapsis_stream rd)
      | ColPeriapsisKm \<Rightarrow> map_sum id (\<lambda>v. v / 1000) (periapsis_stream rd)
      | ColPitch \<Rightarrow> pitch_stream rd
      | ColHeading \<Rightarrow> heading_stream rd
      | ColFuel \<Rightarrow> liquid_fuel_amount rd
      | ColOxidizer \<Rightarrow> oxidizer_amount rd)"

subsection \<open>Outcome analysis (main, lines 515-535)\<close>

definition analyse_result :: "bool \<Rightarrow> real \<Rightarrow> event list" where
  "analyse_result fuel_empty final_peri =
     (if fuel_empty then
        say ''[fail] FAILURE: fuel ran out before the manoeuvre was completed'' [] #
        (if final_peri > 0 then
           [say ''  Periapsis altitude reached: %.1f km'' [Num (final_peri / 1000)],
            say ''  Recommendation: carry more fuel or lower the target orbit'' []]
         else
           [say ''  Suborbital trajectory - periapsis below the surface'' [],
            say ''  Critical error: not enough fuel to reach orbit'' []])
      else if final_peri \<ge> 70000 then
        say ''[ok] SUCCESS: orbit reached!'' [] #
        (if final_peri \<ge> 74000 \<and> final_peri \<le> 76000 then
           [say ''  Excellent precision! Orbit within the target range'' []]
         else
           [say ''  Orbit stable but not ideal (%.1f km)'' [Num (final_peri / 1000)]])
      else if final_peri > 0 then
        [say ''[warn] Partial success: suboptimal orbit'' [],
         say ''  Periapsis %.1f km - needs correction'' [Num (final_peri / 1000)]]
      else
        [say ''[fail] CRITICAL FAILURE: suborbital trajectory'' [],
         say ''  The rocket will fall to the surface'' [],
         say ''  The design or the flight profile must be fully revised'' []])"

text \<open>
  The six classifications of the decision table of the specification (section 4.4), and the
  lines by which the script announces each of them.
\<close>

datatype classification =
    PartialFailureRanDry
  | CriticalFailureRanDry
  | SuccessHighPrecision
  | SuccessAcceptablePrecision
  | PartialSuccessSuboptimal
  | CriticalFailureSuborbital

fun announcement :: "classification \<Rightarrow> real \<Rightarrow> event list" where
  "announcement PartialFailureRanDry p =
     [say ''[fail] FAILURE: fuel ran out before the manoeuvre was completed'' [],
      say ''  Periapsis altitude reached: %.1f km'' [Num (p / 1000)],
      say ''  Recommendation: carry more fuel or lower the target orbit'' []]"
| "announcement CriticalFailureRanDry p =
     [say ''[fail] FAILURE: fuel ran out before the manoeuvre was completed'' [],
      say ''  Suborbital trajectory - periapsis below the surface'' [],
      say ''  Critical error: not enough fuel to reach orbit'' []]"
| "announcement SuccessHighPrecision p =
     [say ''[ok] SUCCESS: orbit reached!'' [],
      say ''  Excellent precision! Orbit within the target range'' []]"
| "announcement SuccessAcceptablePrecision p =
     [say ''[ok] SUCCESS: orbit reached!'' [],
      say ''  Orbit stable but not ideal (%.1f km)'' [Num (p / 1000)]]"
| "announcement PartialSuccessSuboptimal p =
     [say ''[warn] Partial success: suboptimal orbit'' [],
      say ''  Periapsis %.1f km - needs correction'' [Num (p / 1000)]]"
| "announcement CriticalFailureSuborbital p =
     [say ''[fail] CRITICAL FAILURE: suborbital trajectory'' [],
      say ''  The rocket will fall to the surface'' [],
      say ''  The design or the flight profile must be fully revised'' []]"

subsection \<open>The mission script: telemetry and state\<close>

text \<open>
  Telemetry is a sequence of snapshots. The script sees the current snapshot; a blocking
  call (\<^verbatim>\<open>time.sleep\<close>, \<^verbatim>\<open>ap.wait\<close>) moves on to the next one, and the reads made
  between two blocking calls see the same snapshot. When the supplied snapshots end
  during a blocking call the run is \<open>Stalled\<close>: the script is still waiting.
  Reads outside a \<^verbatim>\<open>try\<close> are taken to return; file writes are taken to succeed.
\<close>

record snapshot =
  clock :: real
  altitude :: real
  apoapsis :: real
  periapsis :: real
  vertical_speed :: real
  horizontal_speed :: real
  pitch :: real
  heading :: real
  fuel :: real
  oxidizer :: real

text \<open>A snapshot of the rocket standing on the pad, for examples.\<close>

definition on_pad :: snapshot where
  "on_pad = \<lparr>clock = 0, altitude = 0, apoapsis = 0, periapsis = 0, vertical_speed = 0,
             horizontal_speed = 0, pitch = 90, heading = 90, fuel = 400, oxidizer = 400\<rparr>"

text \<open>
  \<open>Panel d s\<close>: the result of reading \<^verbatim>\<open>panel.deployable\<close> and of the assignment
  \<^verbatim>\<open>panel.deployed = True\<close>.
\<close>

datatype panel = Panel "error + bool" "error + unit"

text \<open>What the script meets once: results of the calls guarded by \<^verbatim>\<open>try\<close>, and names.\<close>

record setting =
  connect :: "error + unit"
  recorder_ctor :: "error + unit"
  sas_radial :: "error + unit"
  sas_prograde :: "error + unit"
  solar_panels :: "panel list"
  orbit_eccentricity :: "error + real"
  vessel_name :: string
  body_name :: string
  max_fuel :: real
  max_ox :: real
  log_path :: string
  data_path :: string

text \<open>A setting in which every guarded call succeeds, with one deployable panel, for examples.\<close>

definition nominal :: setting where
  "nominal = \<lparr>connect = Inr (), recorder_ctor = Inr (), sas_radial = Inr (), sas_prograde = Inr (),
               solar_panels = [Panel (Inr True) (Inr ())], orbit_eccentricity = Inr 0,
               vessel_name = ''Sputnik'', body_name = ''Kerbin'', max_fuel = 400, max_ox = 400,
               log_path = ''ksp.txt'', data_path = ''inf.txt''\<rparr>"

text \<open>
  The variables of \<^verbatim>\<open>main\<close> that live across phases, the telemetry, and the events so
  far. \<open>recorder\<close> is \<^verbatim>\<open>flight_data_logger\<close> being set (not \<^verbatim>\<open>None\<close>).
\<close>

record mission =
  cur :: snapshot
  future :: "snapshot list"
  out :: "event list"
  recorder :: bool
  last_report :: real
  last_data_log :: real
  fuel_warnings :: nat
  target_pitch :: real
  fuel_empty :: bool
  maneuver_start_fuel :: real
  maneuver_start_time :: real

datatype run = Proceed mission | Stalled mission

definition emit :: "event list \<Rightarrow> mission \<Rightarrow> mission" where
  "emit es m = m\<lparr>out := out m @ es\<rparr>"

definition pause :: "event \<Rightarrow> mission \<Rightarrow> run" where
  "pause e m =
     (case future m of
        [] \<Rightarrow> Stalled (emit [e] m)
      | s # ss \<Rightarrow> Proceed ((emit [e] m)\<lparr>cur := s, future := ss\<rparr>))"

definition and_then :: "run \<Rightarrow> (mission \<Rightarrow> run) \<Rightarrow> run" where
  "and_then r f = (case r of Proceed m \<Rightarrow> f m | Stalled m \<Rightarrow> Stalled m)"

text \<open>\<^verbatim>\<open>if flight_data_logger: flight_data_logger.log_status(...)\<close>\<close>

definition status_note :: "string \<Rightarrow> arg list \<Rightarrow> mission \<Rightarrow> mission" where
  "status_note t as m = (if recorder m then emit [Rec (RecLogStatus t as)] m else m)"

text \<open>
  \<^verbatim>\<open>if current_time - last_data_log > d and flight_data_logger:\<close> record a row and
  remember the time.
\<close>

definition data_tick :: "real \<Rightarrow> mission \<Rightarrow> mission" where
  "data_tick d m =
     (if clock (cur m) - last_data_log m > d \<and> recorder m
      then (emit [Rec RecLogData] m)\<lparr>last_data_log := clock (cur m)\<rparr>
      else m)"

definition rule50 :: string where
  "rule50 = replicate 50 CHR ''=''"

subsection \<open>main: start (lines 171-239)\<close>

definition greeting :: "setting \<Rightarrow> event list" where
  "greeting cfg =
     [Log rule50 [] False,
      Log ''AUTOPILOT FOR KSP'' [] False,
      Log rule50 [] False,
      say ''Log file: %s'' [Txt (log_path cfg)],
      say ''Flight data file: %s'' [Txt (data_path cfg)],
      say ''Connecting to KSP over kRPC...'' []]"

definition connection_failed :: "error \<Rightarrow> event list" where
  "connection_failed e =
     (case e of Exception txt \<Rightarrow>
        [say ''[fail] Connection error: %s'' [Txt txt],
         say ''Make sure that:'' [],
         say ''1. KSP is running'' [],
         say ''2. the kRPC server is active (Esc -> Settings -> kRPC -> Start Server)'' [],
         Prompt ''Press Enter to exit...''])"

text \<open>
  The state when the connection is up. The variables assigned later hold 0 or \<open>False\<close>
  until their assignment; none is read before it.
\<close>

definition initial :: "snapshot \<Rightarrow> snapshot list \<Rightarrow> mission" where
  "initial s ss =
     \<lparr>cur = s, future = ss, out = [], recorder = False, last_report = 0, last_data_log = 0,
      fuel_warnings = 0, target_pitch = 0, fuel_empty = False,
      maneuver_start_fuel = 0, maneuver_start_time = 0\<rparr>"

definition create_recorder :: "setting \<Rightarrow> mission \<Rightarrow> mission" where
  "create_recorder cfg m =
     (case recorder_ctor cfg of
        Inr u \<Rightarrow>
          (emit [Rec RecCreate, say ''[ok] Flight data collection initialised in inf.txt'' []] m)
            \<lparr>recorder := True\<rparr>
      | Inl (Exception txt) \<Rightarrow>
          emit [say ''[warn] Data logger initialisation error: %s'' [Txt txt]] m)"

definition start :: "setting \<Rightarrow> mission \<Rightarrow> mission" where
  "start cfg m =
     emit [Prompt (newline # ''Press Enter to start the autopilot... (make sure the rocket is on the pad!)'')]
       (status_note ''MISSION START - ROCKET ON THE LAUNCH PAD'' []
         (emit [Section ''Vessel information'',
                say ''Vessel: %s'' [Txt (vessel_name cfg)],
                say ''Body: %s'' [Txt (body_name cfg)],
                say ''Initial fuel: %.1f / %.1f'' [Num (fuel (cur m)), Num (max_fuel cfg)],
                say ''Oxidizer: %.1f / %.1f'' [Num (oxidizer (cur m)), Num (max_ox cfg)]]
           (create_recorder cfg m)))"

subsection \<open>main: engine start and SAS (lines 241-268)\<close>

definition countdown :: "nat \<Rightarrow> mission \<Rightarrow> run" where
  "countdown i m = pause (Sleep 1) (emit [say ''Launch in %d...'' [Num (real i)]] m)"

definition ignition :: "mission \<Rightarrow> run" where
  "ignition m =
     and_then (countdown 3
       (emit [Section ''Phase 1: Engine start'', say ''1. ENGINE TO FULL THROTTLE'' []] m)) (\<lambda>m.
     and_then (countdown 2 m) (\<lambda>m.
     and_then (countdown 1 m) (\<lambda>m.
       pause (Sleep 1)
         (status_note ''ENGINE START - FULL THROTTLE'' []
           (emit [say ''LAUNCH! Full throttle!'' [],
                  Cmd (SetThrottle 1),
                  Cmd ActivateNextStage] m)))))"

definition sas_radial_out :: "setting \<Rightarrow> mission \<Rightarrow> run" where
  "sas_radial_out cfg m =
     and_then (pause (Sleep 0.5)
       (emit [say ''2. ENABLING SAS: RADIAL OUT'' [], Cmd (SetSas True)] m)) (\<lambda>m.
       Proceed
         (case sas_radial cfg of
            Inr u \<Rightarrow> emit [Cmd (SetSasMode Radial), say ''[ok] SAS set to RadialOut mode'' []] m
          | Inl (Exception txt) \<Rightarrow> emit [say ''[warn] SAS radial unavailable: %s'' [Txt txt]] m))"

subsection \<open>main: waiting for 10 km (lines 270-292)\<close>

definition gravity_turn_entry :: "mission \<Rightarrow> mission" where
  "gravity_turn_entry m =
     (emit [Section ''Phase 2: Gravity turn'', say ''3. WAITING FOR 10 KM ALTITUDE...'' []] m)
       \<lparr>last_report := clock (cur m), last_data_log := clock (cur m)\<rparr>"

definition gravity_turn_report :: "mission \<Rightarrow> mission" where
  "gravity_turn_report m =
     (if clock (cur m) - last_report m > 2
      then (emit [say ''  Altitude: %.1f km | V: %.0f m/s | H: %.0f m/s | Fuel: %.0f''
                    [Num (altitude (cur m) / 1000), Num (vertical_speed (cur m)),
                     Num (horizontal_speed (cur m)), Num (fuel (cur m))]] m)
             \<lparr>last_report := clock (cur m)\<rparr>
      else m)"

definition gravity_turn_body :: "mission \<Rightarrow> mission" where
  "gravity_turn_body m = gravity_turn_report (data_tick 0.5 m)"

function gravity_turn_loop :: "mission \<Rightarrow> run" where
  "gravity_turn_loop m =
     (if altitude (cur m) < 10000 then
        (case pause (Sleep 0.1) (gravity_turn_body m) of
           Proceed m' \<Rightarrow> gravity_turn_loop m'
         | Stalled m' \<Rightarrow> Stalled m')
      else Proceed m)"
  by pat_completeness auto
termination
  by (relation "measure (\<lambda>m. length (future m))")
     (auto simp: pause_def emit_def gravity_turn_body_def gravity_turn_report_def data_tick_def
           split: list.splits if_splits)

declare gravity_turn_loop.simps [simp del]

subsection \<open>main: the turn at 10 km (lines 294-309)\<close>

definition pitch_over :: "mission \<Rightarrow> run" where
  "pitch_over m =
     and_then (pause (Sleep 0.5)
       (emit [Cmd (SetSas False)]
         (status_note ''10 KM REACHED - GRAVITY TURN'' []
           (emit [say ''[ok] 10 km reached (%.1f km)'' [Num (altitude (cur m) / 1000)],
                  say ''  Disabling SAS, turning by 20 deg'' []] m)))) (\<lambda>m.
     and_then (pause (Cmd ApWait)
       (emit [Cmd ApSetSurfaceFrame, Cmd ApEngage, Cmd (ApTarget 70 90)] m)) (\<lambda>m.
       Proceed (emit [Cmd ApDisengage, say ''  [ok] Turn by 20 deg completed'' []] m)))"

subsection \<open>main: powered ascent to the 80 km apoapsis (lines 311-353)\<close>

definition ascent_entry :: "mission \<Rightarrow> mission" where
  "ascent_entry m =
     (emit [Section ''Phase 3: Ascent to 80 km apoapsis'',
            say ''4. WAITING FOR 80 KM APOAPSIS...'' []] m)
       \<lparr>last_report := clock (cur m), fuel_warnings := 0, target_pitch := pitch (cur m)\<rparr>"

text \<open>Lines 327-331.\<close>

definition pitch_program :: "mission \<Rightarrow> mission" where
  "pitch_program m =
     (if pitch (cur m) > 15 then
        (let m1 = (emit [Cmd ApEngage] m)\<lparr>target_pitch := target_pitch m - 0.3\<rparr>
         in emit [Cmd (ApTarget (target_pitch m1) (heading (cur m1))),
                  say ''Smooth turn %s'' [Num (pitch (cur m1))]] m1)
      else m)"

text \<open>Lines 337-343.\<close>

definition ascent_report :: "mission \<Rightarrow> mission" where
  "ascent_report m =
     (if clock (cur m) - last_report m > 3
      then (emit [say ''  Apoapsis: %.1f km (%.0f%%) | Altitude: %.1f km | Fuel: %.0f''
                    [Num (apoapsis (cur m) / 1000), Num (apoapsis (cur m) / 80000 * 100),
                     Num (altitude (cur m) / 1000), Num (fuel (cur m))]] m)
             \<lparr>last_report := clock (cur m)\<rparr>
      else m)"

text \<open>Lines 345-351.\<close>

definition low_fuel :: "real \<Rightarrow> event" where
  "low_fuel f = say ''  [warn] Low fuel: %.0f left'' [Num f]"

definition very_low_fuel :: "real \<Rightarrow> event" where
  "very_low_fuel f = say ''  [warn] Very low fuel: %.0f left'' [Num f]"

definition fuel_advisory :: "mission \<Rightarrow> mission" where
  "fuel_advisory m =
     (if fuel (cur m) < 100 \<and> fuel_warnings m = 0 then
        (emit [low_fuel (fuel (cur m))] m)\<lparr>fuel_warnings := fuel_warnings m + 1\<rparr>
      else if fuel (cur m) < 50 \<and> fuel_warnings m = 1 then
        (emit [very_low_fuel (fuel (cur m))] m)\<lparr>fuel_warnings := fuel_warnings m + 1\<rparr>
      else m)"

definition ascent_body :: "mission \<Rightarrow> mission" where
  "ascent_body m = fuel_advisory (ascent_report (pitch_program (data_tick 0.5 m)))"

function ascent_loop :: "mission \<Rightarrow> run" where
  "ascent_loop m =
     (if apoapsis (cur m) < 80000 then
        (case pause (Sleep 0.2) (ascent_body m) of
           Proceed m' \<Rightarrow> ascent_loop m'
         | Stalled m' \<Rightarrow> Stalled m')
      else Proceed m)"
  by pat_completeness auto
termination
  by (relation "measure (\<lambda>m. length (future m))")
     (auto simp: pause_def emit_def ascent_body_def fuel_advisory_def ascent_report_def
                 pitch_program_def data_tick_def Let_def
           split: list.splits if_splits)

declare ascent_loop.simps [simp del]

subsection \<open>main: engine cut-off and solar panels (lines 355-389)\<close>

definition engine_cutoff :: "mission \<Rightarrow> mission" where
  "engine_cutoff m =
     emit [say ''  Remaining after the ascent:'' [],
           say ''    Fuel: %.1f'' [Num (fuel (cur m))],
           say ''    Oxidizer: %.1f'' [Num (oxidizer (cur m))]]
       (status_note ''APOAPSIS %.1f KM REACHED - ENGINE OFF'' [Num (apoapsis (cur m) / 1000)]
         (emit [say ''[ok] Apoapsis %.1f km reached'' [Num (apoapsis (cur m) / 1000)],
                say ''  ENGINE OFF'' [],
                Cmd (SetThrottle 0),
                Cmd ApDisengage] m))"

text \<open>
  The loop over \<^verbatim>\<open>vessel.parts.solar_panels\<close>: the events of the panels from index \<open>i\<close>
  on, and the count of panels deployed.
\<close>

fun deploy_each :: "nat \<Rightarrow> panel list \<Rightarrow> nat \<Rightarrow> event list \<times> nat" where
  "deploy_each i [] solar_count = ([], solar_count)"
| "deploy_each i (Panel (Inl (Exception txt)) s # ps) solar_count =
     (let (es, n) = deploy_each (Suc i) ps solar_count
      in (say ''  [warn] Panel error: %s'' [Txt txt] # es, n))"
| "deploy_each i (Panel (Inr False) s # ps) solar_count = deploy_each (Suc i) ps solar_count"
| "deploy_each i (Panel (Inr True) (Inl (Exception txt)) # ps) solar_count =
     (let (es, n) = deploy_each (Suc i) ps solar_count
      in (say ''  [warn] Panel error: %s'' [Txt txt] # es, n))"
| "deploy_each i (Panel (Inr True) (Inr u) # ps) solar_count =
     (let (es, n) = deploy_each (Suc i) ps (Suc solar_count)
      in (Cmd (DeployPanel i) # es, n))"

definition deploy_solar_panels :: "setting \<Rightarrow> mission \<Rightarrow> mission" where
  "deploy_solar_panels cfg m =
     (let (es, solar_count) = deploy_each 0 (solar_panels cfg) 0
      in emit [if solar_count > 0
               then say ''  [ok] Solar panels deployed: %d'' [Num (real solar_count)]
               else say ''  [warn] No solar panels found'' []]
           (emit es
             (status_note ''DEPLOYING SOLAR PANELS'' []
               (emit [Section ''Phase 4: Systems deployment'',
                      say ''5. DEPLOYING SOLAR PANELS'' []] m))))"

subsection \<open>main: coasting to 78 km (lines 391-413)\<close>

definition coast_entry :: "mission \<Rightarrow> mission" where
  "coast_entry m =
     status_note ''WAITING FOR 80 KM APOAPSIS'' []
       (emit [Section ''Phase 5: Waiting for apoapsis'',
              say ''6. WAITING FOR ~80 KM ALTITUDE...'' []] m)"

definition coast_body :: "mission \<Rightarrow> mission" where
  "coast_body m =
     (let m1 = data_tick 1.0 m;
          remaining = 78000 - altitude (cur m1)
      in if remaining < 5000
         then emit [say ''  To target: %.1f km | Current altitude: %.1f km | Fuel: %.1f''
                      [Num (remaining / 1000), Num (altitude (cur m1) / 1000),
                       Num (fuel (cur m1))]] m1
         else m1)"

function coast_loop :: "mission \<Rightarrow> run" where
  "coast_loop m =
     (if altitude (cur m) < 78000 then
        (case pause (Sleep 0.5) (coast_body m) of
           Proceed m' \<Rightarrow> coast_loop m'
         | Stalled m' \<Rightarrow> Stalled m')
      else Proceed m)"
  by pat_completeness auto
termination
  by (relation "measure (\<lambda>m. length (future m))")
     (auto simp: pause_def emit_def coast_body_def data_tick_def Let_def
           split: list.splits if_splits)

declare coast_loop.simps [simp del]

definition coast_exit :: "mission \<Rightarrow> mission" where
  "coast_exit m = emit [say ''[ok] Altitude %.1f km reached'' [Num (altitude (cur m) / 1000)]] m"

subsection \<open>main: the circularization burn (lines 415-484)\<close>

definition burn_prepare :: "setting \<Rightarrow> mission \<Rightarrow> run" where
  "burn_prepare cfg m =
     and_then (pause (Sleep 0.5)
       (emit [say ''  Setting SAS: Prograde'' [], Cmd (SetSas True)]
         (status_note ''ORBITAL MANOEUVRE BEGINS'' []
           (emit [Section ''Phase 6: Orbital manoeuvre'',
                  say ''7. PREPARING THE ORBITAL MANOEUVRE'' []] m)))) (\<lambda>m.
       (let m1 = (case sas_prograde cfg of
                    Inr u \<Rightarrow> emit [Cmd (SetSasMode Prograde),
                                   say ''  [ok] SAS set to Prograde mode'' []] m
                  | Inl (Exception txt) \<Rightarrow>
                      emit [say ''  [warn] SAS prograde unavailable: %s'' [Txt txt]] m);
            m2 = status_note ''ENGINE ON FOR THE ORBITAL MANOEUVRE'' []
                   (emit [say ''  ENGINE ON'' [], Cmd (SetThrottle 1)] m1);
            m3 = m2\<lparr>maneuver_start_fuel := fuel (cur m2), maneuver_start_time := clock (cur m2)\<rparr>;
            m4 = emit [say ''  Target: periapsis 75 km (current: %.1f km)''
                         [Num (periapsis (cur m3) / 1000)],
                       say ''  Initial fuel reserve: %.1f'' [Num (maneuver_start_fuel m3)]] m3
        in Proceed (m4\<lparr>last_report := clock (cur m4), fuel_empty := False\<rparr>)))"

text \<open>Lines 465-475.\<close>

definition burn_report :: "mission \<Rightarrow> mission" where
  "burn_report m =
     (if clock (cur m) - last_report m > 2
      then (emit [say ''  Periapsis: %.1f km (%.0f%%) | Fuel: %.1f | Used: %.1f | Time: %.0fs''
                    [Num (periapsis (cur m) / 1000),
                     Num (if periapsis (cur m) > 0 then periapsis (cur m) / 75000 * 100 else 0),
                     Num (fuel (cur m)),
                     Num (maneuver_start_fuel m - fuel (cur m)),
                     Num (clock (cur m) - maneuver_start_time m)]] m)
             \<lparr>last_report := clock (cur m)\<rparr>
      else m)"

definition out_of_fuel :: event where
  "out_of_fuel = say ''  [fail] OUT OF FUEL!'' []"

function burn_loop :: "mission \<Rightarrow> run" where
  "burn_loop m =
     (if periapsis (cur m) < 75000 then
        (let m1 = data_tick 0.3 m
         in if fuel (cur m1) \<le> 0.1 \<or> oxidizer (cur m1) \<le> 0.1
            then Proceed ((emit [out_of_fuel] m1)\<lparr>fuel_empty := True\<rparr>)
            else (case pause (Sleep 0.2) (burn_report m1) of
                    Proceed m' \<Rightarrow> burn_loop m'
                  | Stalled m' \<Rightarrow> Stalled m'))
      else Proceed m)"
  by pat_completeness auto
termination
  by (relation "measure (\<lambda>m. length (future m))")
     (auto simp: pause_def emit_def burn_report_def data_tick_def Let_def
           split: list.splits if_splits)

declare burn_loop.simps [simp del]

definition burn_exit :: "mission \<Rightarrow> mission" where
  "burn_exit m =
     status_note ''MANOEUVRE COMPLETE - PERIAPSIS %.1f KM'' [Num (periapsis (cur m) / 1000)]
       (emit [Cmd (SetThrottle 0), say ''  Engine off'' []] m)"

subsection \<open>main: results (lines 486-551)\<close>

definition orbit_report :: "setting \<Rightarrow> mission \<Rightarrow> event list" where
  "orbit_report cfg m =
     (let final_apo = apoapsis (cur m);
          final_peri = periapsis (cur m);
          final_fuel = fuel (cur m);
          final_ox = oxidizer (cur m)
      in [Section ''Mission results'',
          say ''ORBIT PARAMETERS:'' [],
          say ''  Apoapsis: %.2f km'' [Num (final_apo / 1000)],
          say ''  Periapsis: %.2f km'' [Num (final_peri / 1000)],
          (case orbit_eccentricity cfg of
             Inr eccentricity \<Rightarrow> say ''  Eccentricity: %.4f'' [Num eccentricity]
           | Inl e \<Rightarrow> say ''  Eccentricity: unavailable'' []),
          say (newline # ''REMAINING RESOURCES:'') [],
          say ''  Fuel: %.1f'' [Num final_fuel],
          say ''  Oxidizer: %.1f'' [Num final_ox],
          say (newline # ''FLIGHT STATISTICS:'') [],
          say ''  Fuel used for the manoeuvre: %.1f'' [Num (maneuver_start_fuel m - final_fuel)],
          say ''  Total manoeuvre time: %.1fs'' [Num (clock (cur m) - maneuver_start_time m)],
          say (newline # ''RESULT ANALYSIS:'') []]
         @ analyse_result (fuel_empty m) final_peri)"

definition data_saved :: "setting \<Rightarrow> event" where
  "data_saved cfg = say (newline # ''[ok] Flight data saved to: %s'') [Txt (data_path cfg)]"

definition finish :: "setting \<Rightarrow> mission \<Rightarrow> mission" where
  "finish cfg m =
     emit [Cmd CloseConnection,
           Log (newline # rule50) [] False,
           Log ''Event log: %s'' [Txt (log_path cfg)] False,
           Log ''Flight data: %s'' [Txt (data_path cfg)] False,
           Log rule50 [] False,
           Prompt (newline # ''Press Enter to finish...'')]
       (if recorder m
        then emit [Rec (RecLogStatus ''MISSION COMPLETE'' []), Rec RecClose, data_saved cfg] m
        else m)"

definition summary :: "setting \<Rightarrow> mission \<Rightarrow> mission" where
  "summary cfg m = finish cfg (emit (orbit_report cfg m) m)"

subsection \<open>main\<close>

definition fly :: "setting \<Rightarrow> mission \<Rightarrow> run" where
  "fly cfg m =
     and_then (ignition (start cfg m)) (\<lambda>m.
     and_then (sas_radial_out cfg m) (\<lambda>m.
     and_then (gravity_turn_loop (gravity_turn_entry m)) (\<lambda>m.
     and_then (pitch_over m) (\<lambda>m.
     and_then (ascent_loop (ascent_entry m)) (\<lambda>m.
     and_then (coast_loop (coast_entry (deploy_solar_panels cfg (engine_cutoff m)))) (\<lambda>m.
     and_then (burn_prepare cfg (coast_exit m)) (\<lambda>m.
     and_then (burn_loop m) (\<lambda>m.
       Proceed (summary cfg (burn_exit m))))))))))"

datatype outcome = NoConnection "event list" | Completed mission | Unfinished mission

definition main :: "setting \<Rightarrow> snapshot \<Rightarrow> snapshot list \<Rightarrow> outcome" where
  "main cfg s ss =
     (case connect cfg of
        Inl e \<Rightarrow> NoConnection (greeting cfg @ connection_failed e)
      | Inr u \<Rightarrow>
          (case fly cfg (emit (greeting cfg @ [say ''[ok] Connected to KSP!'' []]) (initial s ss)) of
             Proceed m \<Rightarrow> Completed m
           | Stalled m \<Rightarrow> Unfinished m))"

subsection \<open>Reading a run\<close>

fun state_of :: "run \<Rightarrow> mission" where
  "state_of (Proceed m) = m"
| "state_of (Stalled m) = m"

fun section_title :: "event \<Rightarrow> string option" where
  "section_title (Section t) = Some t"
| "section_title e = None"

definition sections :: "event list \<Rightarrow> string list" where
  "sections es = List.map_filter section_title es"

fun command_of :: "event \<Rightarrow> command option" where
  "command_of (Cmd c) = Some c"
| "command_of e = None"

definition commands :: "event list \<Rightarrow> command list" where
  "commands es = List.map_filter command_of es"

text \<open>The pitch targets given to the autopilot, in order.\<close>

fun target_of :: "command \<Rightarrow> real option" where
  "target_of (ApTarget p h) = Some p"
| "target_of c = None"

definition targets :: "event list \<Rightarrow> real list" where
  "targets es = List.map_filter target_of (commands es)"

text \<open>
  The number of iterations of the powered-ascent loop, started in state \<open>m\<close>, in which the
  pitch read is above 15: the loop runs on the snapshots read before the apoapsis reaches
  80000.
\<close>

definition turns :: "mission \<Rightarrow> nat" where
  "turns m = length (filter (\<lambda>s. 15 < pitch s)
               (takeWhile (\<lambda>s. apoapsis s < 80000) (cur m # future m)))"

text \<open>The two fuel advisories of the powered ascent, as they stand in a run.\<close>

fun is_advisory :: "event \<Rightarrow> bool" where
  "is_advisory (Log t as st) =
     (t = ''  [warn] Low fuel: %.0f left'' \<or> t = ''  [warn] Very low fuel: %.0f left'')"
| "is_advisory e = False"

definition advisories :: "event list \<Rightarrow> event list" where
  "advisories es = filter is_advisory es"

text \<open>
  The fuel readings of the iterations of the powered-ascent loop started in state \<open>m\<close>,
  and lines 346-351 run over a list of readings with \<open>w\<close> warnings given so far.
\<close>

definition polled_fuel :: "mission \<Rightarrow> real list" where
  "polled_fuel m = map fuel (takeWhile (\<lambda>s. apoapsis s < 80000) (cur m # future m))"

fun later_advisories :: "nat \<Rightarrow> real list \<Rightarrow> event list" where
  "later_advisories w [] = []"
| "later_advisories w (f # fs) =
     (if f < 100 \<and> w = 0 then low_fuel f # later_advisories (w + 1) fs
      else if f < 50 \<and> w = 1 then very_low_fuel f # later_advisories (w + 1) fs
      else later_advisories w fs)"

fun is_recorder_call :: "event \<Rightarrow> bool" where
  "is_recorder_call (Rec c) = True"
| "is_recorder_call e = False"

text \<open>
  What a run did, whatever its end. The events that concern the flight-data recorder are
  its calls and the three lines of the event log that report on it (created, not
  created, data saved); \<open>mission_events\<close> are all the others.
\<close>

fun events_of :: "outcome \<Rightarrow> event list" where
  "events_of (NoConnection es) = es"
| "events_of (Completed m) = out m"
| "events_of (Unfinished m) = out m"

fun about_recorder :: "event \<Rightarrow> bool" where
  "about_recorder (Rec c) = True"
| "about_recorder (Log t as st) =
     (t = ''[ok] Flight data collection initialised in inf.txt'' \<or>
      t = ''[warn] Data logger initialisation error: %s'' \<or>
      t = newline # ''[ok] Flight data saved to: %s'')"
| "about_recorder e = False"

definition mission_events :: "event list \<Rightarrow> event list" where
  "mission_events es = filter (\<lambda>e. \<not> about_recorder e) es"

definition recorder_calls :: "event list \<Rightarrow> event list" where
  "recorder_calls es = filter is_recorder_call es"

text \<open>The events that only a run with a recorder has: its calls, and the line "data saved".\<close>

fun needs_recorder :: "event \<Rightarrow> bool" where
  "needs_recorder (Rec c) = True"
| "needs_recorder (Log t as st) = (t = newline # ''[ok] Flight data saved to: %s'')"
| "needs_recorder e = False"

definition recorder_traces :: "event list \<Rightarrow> event list" where
  "recorder_traces es = filter needs_recorder es"

text \<open>
  State \<open>a\<close> has no recorder and nothing in its events that needs one, and differs from
  state \<open>b\<close> at most in what concerns the recorder.
\<close>

definition shadows :: "mission \<Rightarrow> mission \<Rightarrow> bool" where
  "shadows a b \<longleftrightarrow>
     \<not> recorder a \<and> recorder_traces (out a) = [] \<and>
     cur a = cur b \<and> future a = future b \<and> last_report a = last_report b \<and>
     fuel_warnings a = fuel_warnings b \<and> target_pitch a = target_pitch b \<and>
     fuel_empty a = fuel_empty b \<and> maneuver_start_fuel a = maneuver_start_fuel b \<and>
     maneuver_start_time a = maneuver_start_time b \<and>
     mission_events (out a) = mission_events (out b)"

fun shadows_run :: "run \<Rightarrow> run \<Rightarrow> bool" where
  "shadows_run (Proceed a) (Proceed b) = shadows a b"
| "shadows_run (Stalled a) (Stalled b) = shadows a b"
| "shadows_run r r' = False"

text \<open>
  The states of the sequencer as the specification names them (section 4.3), read off the
  section banners of the script. The deployment of the panels (the script's phase 4) is the
  entry action of \<open>CoastToApoapsis\<close>; the results banner opens \<open>Aborted\<close> when the burn ran
  dry and \<open>MissionSummary\<close> otherwise.
\<close>

datatype phase =
    Ignition | GravityTurn | PoweredAscentToTargetApoapsis | CoastToApoapsis
  | CircularizationBurn | MissionSummary | Aborted

definition phase_of :: "bool \<Rightarrow> string \<Rightarrow> phase option" where
  "phase_of dry t =
     (if t = ''Phase 1: Engine start'' then Some Ignition
      else if t = ''Phase 2: Gravity turn'' then Some GravityTurn
      else if t = ''Phase 3: Ascent to 80 km apoapsis'' then Some PoweredAscentToTargetApoapsis
      else if t = ''Phase 4: Systems deployment'' then Some CoastToApoapsis
      else if t = ''Phase 5: Waiting for apoapsis'' then Some CoastToApoapsis
      else if t = ''Phase 6: Orbital manoeuvre'' then Some CircularizationBurn
      else if t = ''Mission results'' then Some (if dry then Aborted else MissionSummary)
      else None)"

definition phases :: "mission \<Rightarrow> phase list" where
  "phases m = remdups_adj (List.map_filter (phase_of (fuel_empty m)) (sections (out m)))"

section \<open>Properties\<close>

subsection \<open>Outcome classification\<close>

text \<open>
  C1. The lines announced at mission end depend on the pair (fuel_empty, final periapsis)
  only and follow the decision table: with fuel_empty, partial failure when \<open>p > 0\<close> and
  critical failure when \<open>p \<le> 0\<close>; without it, success with high precision when
  \<open>p \<ge> 70000\<close> and \<open>74000 \<le> p \<le> 76000\<close>, success with acceptable precision when
  \<open>p \<ge> 70000\<close> otherwise, partial success when \<open>0 < p < 70000\<close>, critical failure when
  \<open>p \<le> 0\<close>; in particular at the boundaries 0, 69999, 70000, 73999, 74000, 76000, 76001.
\<close>

theorem outcome_table:
  "(0 < p \<longrightarrow> analyse_result True p = announcement PartialFailureRanDry p) \<and>
   (p \<le> 0 \<longrightarrow> analyse_result True p = announcement CriticalFailureRanDry p) \<and>
   (70000 \<le> p \<and> 74000 \<le> p \<and> p \<le> 76000 \<longrightarrow>
      analyse_result False p = announcement SuccessHighPrecision p) \<and>
   (70000 \<le> p \<and> \<not> (74000 \<le> p \<and> p \<le> 76000) \<longrightarrow>
      analyse_result False p = announcement SuccessAcceptablePrecision p) \<and>
   (0 < p \<and> p < 70000 \<longrightarrow> analyse_result False p = announcement PartialSuccessSuboptimal p) \<and>
   (p \<le> 0 \<longrightarrow> analyse_result False p = announcement CriticalFailureSuborbital p) \<and>
   analyse_result False 0 = announcement CriticalFailureSuborbital 0 \<and>
   analyse_result False 69999 = announcement PartialSuccessSuboptimal 69999 \<and>
   analyse_result False 70000 = announcement SuccessAcceptablePrecision 70000 \<and>
   analyse_result False 73999 = announcement SuccessAcceptablePrecision 73999 \<and>
   analyse_result False 74000 = announcement SuccessHighPrecision 74000 \<and>
   analyse_result False 76000 = announcement SuccessHighPrecision 76000 \<and>
   analyse_result False 76001 = announcement SuccessAcceptablePrecision 76001 \<and>
   analyse_result True 0 = announcement CriticalFailureRanDry 0 \<and>
   (\<forall>q \<in> {69999, 70000, 73999, 74000, 76000, 76001}.
      analyse_result True q = announcement PartialFailureRanDry q)"
  by (simp add: analyse_result_def)

theorem outcome_table_witness:
  "analyse_result True 1 = announcement PartialFailureRanDry 1 \<and>
   analyse_result True (-5) = announcement CriticalFailureRanDry (-5) \<and>
   analyse_result False 75000 = announcement SuccessHighPrecision 75000 \<and>
   analyse_result False 80000 = announcement SuccessAcceptablePrecision 80000 \<and>
   analyse_result False 30000 = announcement PartialSuccessSuboptimal 30000 \<and>
   analyse_result False (-1) = announcement CriticalFailureSuborbital (-1) \<and>
   analyse_result True 76001 = announcement PartialFailureRanDry 76001"
  using outcome_table [of 1] outcome_table [of "-5"] outcome_table [of 75000]
    outcome_table [of 80000] outcome_table [of 30000] outcome_table [of "-1"]
  by simp

subsection \<open>DualLogger\<close>

lemma split_lines_append:
  "newline \<notin> set s \<Longrightarrow> split_lines (s @ newline # rest) = s # split_lines rest"
  by (induction s) auto

lemma split_lines_line: "newline \<notin> set s \<Longrightarrow> split_lines (s @ [newline]) = [s]"
  using split_lines_append [of s "[]"] by simp

lemma length_digits: "length digits = 10"
  by (simp add: digits_def)

lemma newline_not_digit: "newline \<notin> set digits"
  by (simp add: digits_def)

lemma two_digits_digits: "set (two_digits n) \<subseteq> set digits"
  by (simp add: two_digits_def length_digits)

lemma two_digits_no_newline: "newline \<notin> set (two_digits n)"
  using two_digits_digits [of n] newline_not_digit by blast

lemma strftime_HMS_no_newline: "newline \<notin> set (strftime_HMS t)"
  by (simp add: strftime_HMS_def two_digits_no_newline)

lemma strftime_HMS_shape:
  "\<exists>a b c d e f. strftime_HMS t = [a, b, CHR '':'', c, d, CHR '':'', e, f] \<and>
     {a, b, c, d, e, f} \<subseteq> set digits"
  by (simp add: strftime_HMS_def two_digits_def length_digits)


lemma log_console:
  "console (log now message show_time L) =
     console L @ (if show_time then ''['' @ strftime_HMS now @ ''] '' @ message else message) @ [newline]"
  by (simp add: log_def Let_def)

lemma log_event_file:
  "event_file (log now message show_time L) =
     event_file L @ (if show_time then ''['' @ strftime_HMS now @ ''] '' @ message else message) @ [newline]"
  by (simp add: log_def Let_def)

lemma stamped_one_line:
  assumes "newline \<notin> set message"
  shows "split_lines ((''['' @ strftime_HMS now @ ''] '' @ message) @ [newline]) =
           [''['' @ strftime_HMS now @ ''] '' @ message]"
proof (rule split_lines_line)
  show "newline \<notin> set (''['' @ strftime_HMS now @ ''] '' @ message)"
    using assms strftime_HMS_no_newline [of now] by simp
qed

lemma banner_three_lines:
  assumes "newline \<notin> set t"
  shows "split_lines (border @ [newline] @ t @ [newline] @ border @ [newline]) = [border, t, border]"
proof -
  have b: "newline \<notin> set border" by (simp add: border_def)
  have "split_lines (border @ newline # (t @ newline # (border @ newline # []))) =
          border # split_lines (t @ newline # (border @ newline # []))"
    by (rule split_lines_append [OF b])
  also have "split_lines (t @ newline # (border @ newline # [])) =
          t # split_lines (border @ newline # [])"
    by (rule split_lines_append [OF assms])
  also have "split_lines (border @ newline # []) = border # split_lines []"
    by (rule split_lines_append [OF b])
  finally show ?thesis by simp
qed

text \<open>
  C8 (amended). \<open>log\<close> appends one entry, the same text on the console and in the event
  file: the message, after \<open>[HH:MM:SS] \<close> when \<open>show_time\<close> is set and unchanged
  otherwise, followed by one line break. The entry is exactly one line when the message
  holds no line break. \<open>section\<close> appends three entries without a timestamp: a border of
  fifty \<open>=\<close>, the title in upper case, the same border; they are three lines when the
  upper-cased title holds no line break.
\<close>

theorem dual_logger_entries:
  "console (log now message show_time L) =
     console L @ (if show_time then ''['' @ strftime_HMS now @ ''] '' @ message else message) @ [newline] \<and>
   event_file (log now message show_time L) =
     event_file L @ (if show_time then ''['' @ strftime_HMS now @ ''] '' @ message else message) @ [newline] \<and>
   (\<exists>a b c d e f. strftime_HMS now = [a, b, CHR '':'', c, d, CHR '':'', e, f] \<and>
     {a, b, c, d, e, f} \<subseteq> set digits) \<and>
   (newline \<notin> set message \<longrightarrow>
      split_lines ((''['' @ strftime_HMS now @ ''] '' @ message) @ [newline]) =
        [''['' @ strftime_HMS now @ ''] '' @ message] \<and>
      split_lines (message @ [newline]) = [message]) \<and>
   console (section_banner upper t1 t2 t3 title L) =
     console L @ border @ [newline] @ upper title @ [newline] @ border @ [newline] \<and>
   event_file (section_banner upper t1 t2 t3 title L) =
     event_file L @ border @ [newline] @ upper title @ [newline] @ border @ [newline] \<and>
   (newline \<notin> set (upper title) \<longrightarrow>
      split_lines (border @ [newline] @ upper title @ [newline] @ border @ [newline]) =
        [border, upper title, border])"
proof (intro conjI impI)
  show "console (section_banner upper t1 t2 t3 title L) =
     console L @ border @ [newline] @ upper title @ [newline] @ border @ [newline]"
    by (simp add: section_banner_def log_console)
  show "event_file (section_banner upper t1 t2 t3 title L) =
     event_file L @ border @ [newline] @ upper title @ [newline] @ border @ [newline]"
    by (simp add: section_banner_def log_event_file)
qed (rule log_console log_event_file strftime_HMS_shape stamped_one_line split_lines_line
      banner_three_lines, assumption?)+

theorem dual_logger_entries_witness:
  "split_lines (console (log \<lparr>hour = 9, minute = 5, second = 30\<rparr> ''LAUNCH'' True \<lparr>console = [], event_file = []\<rparr>))
     = [''[09:05:30] LAUNCH''] \<and>
   split_lines (console (section_banner ascii_upper \<lparr>hour = 9, minute = 5, second = 30\<rparr>
       \<lparr>hour = 9, minute = 5, second = 31\<rparr> \<lparr>hour = 9, minute = 5, second = 32\<rparr> ''Phase 1''
       \<lparr>console = [], event_file = []\<rparr>))
     = [border, ''PHASE 1'', border]"
proof -
  let ?now = "\<lparr>hour = 9, minute = 5, second = 30\<rparr>"
  let ?L = "\<lparr>console = [], event_file = []\<rparr>"
  have u: "ascii_upper ''Phase 1'' = ''PHASE 1''"
    by (simp add: ascii_upper_def)
  have h: "strftime_HMS ?now = ''09:05:30''"
    by (simp add: strftime_HMS_def two_digits_def digits_def)
  note t = dual_logger_entries [of ?now "''LAUNCH''" True ?L ascii_upper ?now
      "\<lparr>hour = 9, minute = 5, second = 31\<rparr>" "\<lparr>hour = 9, minute = 5, second = 32\<rparr>" "''Phase 1''"]
  have n1: "newline \<notin> set ''LAUNCH''" by simp
  have n2: "newline \<notin> set (ascii_upper ''Phase 1'')" by (simp add: u)
  from t n1 n2 show ?thesis by (simp add: h u)
qed

text \<open>
  The script itself logs messages that begin with a line break (line 504); the entry of
  such a message is two lines.
\<close>

theorem log_newline_counterexample:
  "split_lines (console (log \<lparr>hour = 9, minute = 5, second = 30\<rparr> (newline # ''REMAINING RESOURCES:'') True
       \<lparr>console = [], event_file = []\<rparr>))
     = [''[09:05:30] '', ''REMAINING RESOURCES:''] \<and>
   length (split_lines (event_file (log \<lparr>hour = 9, minute = 5, second = 30\<rparr> (newline # ''REMAINING RESOURCES:'') True
       \<lparr>console = [], event_file = []\<rparr>))) = 2"
  by (simp add: log_def strftime_HMS_def two_digits_def digits_def)

subsection \<open>FlightDataLogger\<close>

lemma then_read_Inr: "\<not> isl r \<Longrightarrow> then_read r k = k (projr r)"
  by (cases r) (simp_all add: then_read_def)

lemma then_read_Inl: "isl r \<Longrightarrow> then_read r k = Inl (projl r)"
  by (cases r) (simp_all add: then_read_def)

lemma data_line_ok:
  assumes "\<forall>r \<in> set (reads rd). \<not> isl r"
  shows "data_line t rd =
     Inr [Cell 6 1 t,
          Cell 8 2 (projr (altitude_stream rd) / 1000),
          Cell 8 1 (projr (speed_stream rd)),
          Cell 8 1 (projr (vertical_speed_stream rd)),
          Cell 8 1 (projr (horizontal_speed_stream rd)),
          Cell 8 2 (projr (apoapsis_stream rd) / 1000),
          Cell 8 2 (projr (periapsis_stream rd) / 1000),
          Cell 8 1 (projr (pitch_stream rd)),
          Cell 8 1 (projr (heading_stream rd)),
          Cell 8 1 (projr (liquid_fuel_amount rd)),
          Cell 8 1 (projr (oxidizer_amount rd))]"
  using assms by (simp add: reads_def data_line_def then_read_Inr)

lemma data_line_raises:
  assumes "\<exists>r \<in> set (reads rd). isl r"
  shows "\<exists>e. data_line t rd = Inl e"
proof -
  have step: "\<And>r k. (\<exists>e. then_read r k = Inl e) \<longleftrightarrow> isl r \<or> (\<exists>e. k (projr r) = Inl e)"
    subgoal for r k by (cases r) (simp_all add: then_read_def)
    done
  show ?thesis
    using assms unfolding data_line_def reads_def by (simp add: step)
qed

lemma quantity_row:
  assumes "\<forall>r \<in> set (reads rd). \<not> isl r"
  shows "map (quantity t rd) headers =
     map Inr [t,
          (projr (altitude_stream rd) / 1000),
          (projr (speed_stream rd)),
          (projr (vertical_speed_stream rd)),
          (projr (horizontal_speed_stream rd)),
          (projr (apoapsis_stream rd) / 1000),
          (projr (periapsis_stream rd) / 1000),
          (projr (pitch_stream rd)),
          (projr (heading_stream rd)),
          (projr (liquid_fuel_amount rd)),
          (projr (oxidizer_amount rd))]"
proof -
  have c: "\<And>r f. \<not> isl r \<Longrightarrow> map_sum id f r = Inr (f (projr r))"
    subgoal for r f by (cases r) simp_all
    done
  have d: "\<And>r::error + real. \<not> isl r \<Longrightarrow> r = Inr (projr r)"
    by simp
  from assms have a:
    "\<not> isl (altitude_stream rd)" "\<not> isl (speed_stream rd)" "\<not> isl (vertical_speed_stream rd)"
    "\<not> isl (horizontal_speed_stream rd)" "\<not> isl (apoapsis_stream rd)"
    "\<not> isl (periapsis_stream rd)" "\<not> isl (pitch_stream rd)" "\<not> isl (heading_stream rd)"
    "\<not> isl (liquid_fuel_amount rd)" "\<not> isl (oxidizer_amount rd)"
    by (simp_all add: reads_def)
  show ?thesis
    using a by (simp add: headers_def quantity_def c)
qed


lemma data_line_length: "data_line t rd = Inr row \<Longrightarrow> length row = 11"
proof (cases "\<exists>r \<in> set (reads rd). isl r")
  case True
  assume "data_line t rd = Inr row"
  with data_line_raises [OF True, of t] show ?thesis by auto
next
  case False
  assume r: "data_line t rd = Inr row"
  from False have "\<forall>r \<in> set (reads rd). \<not> isl r" by blast
  from data_line_ok [OF this, of t] r show ?thesis by auto
qed

lemma map_filter_append:
  "List.map_filter f (xs @ ys) = List.map_filter f xs @ List.map_filter f ys"
  by (simp add: List.map_filter_def)

lemma data_rows_append: "data_rows (f @ g) = data_rows f @ data_rows g"
  by (simp add: data_rows_def map_filter_append)

lemma apply_op_header:
  "filter is_header (data_file (apply_op op R)) = filter is_header (data_file R)"
  by (cases op)
     (auto simp: log_data_def log_status_def close_logger_def split: sum.splits)

lemma apply_op_rows:
  "set (data_rows (data_file (apply_op op R))) \<subseteq>
     set (data_rows (data_file R)) \<union> {row. length row = 11}"
  by (cases op)
     (auto simp: log_data_def log_status_def close_logger_def data_rows_append
           split: sum.splits dest: data_line_length,
      auto simp: data_rows_def dest: data_line_length)

lemma fold_apply_op_header:
  "filter is_header (data_file (fold apply_op ops R)) = filter is_header (data_file R)"
  by (induction ops arbitrary: R) (simp_all add: apply_op_header)

lemma fold_apply_op_rows:
  "set (data_rows (data_file (fold apply_op ops R))) \<subseteq>
     set (data_rows (data_file R)) \<union> {row. length row = 11}"
proof (induction ops arbitrary: R)
  case Nil
  then show ?case by simp
next
  case (Cons op ops)
  from Cons.IH [of "apply_op op R"] apply_op_rows [of op R]
  show ?case by auto
qed

lemma new_logger_file:
  "filter is_header (data_file (new_logger now date v b)) = [HeaderRow headers]"
  "data_rows (data_file (new_logger now date v b)) = []"
  by (simp_all add: new_logger_def init_file_def data_rows_def)

text \<open>
  C6. A call of \<open>log_data\<close> always returns. When every read returns, it appends one row of
  eleven fields whose values are, position by position, the quantities named by the eleven
  column titles; when some read raises, the data file is left as it was and the exception
  is printed. The titles are written once, by the initialisation, and every row of the
  file has as many fields as there are titles, whatever calls follow.
\<close>

theorem recorder_rows:
  "(\<exists>R'. log_data now rd R = Inr R' \<and>
      (if \<exists>r \<in> set (reads rd). isl r
       then data_file R' = data_file R \<and> (\<exists>e. printed R' = printed R @ [e])
       else printed R' = printed R \<and>
            (\<exists>row. data_file R' = data_file R @ [DataRow row] \<and>
               length row = 11 \<and> length headers = 11 \<and>
               map (\<lambda>c. Inr (cell_value c)) row = map (quantity (now - start_time R) rd) headers))) \<and>
   filter is_header (data_file (fold apply_op ops (new_logger t0 date v b))) = [HeaderRow headers] \<and>
   (\<forall>row \<in> set (data_rows (data_file (fold apply_op ops (new_logger t0 date v b)))).
      length row = length headers)"
proof (intro conjI)
  show "\<exists>R'. log_data now rd R = Inr R' \<and>
      (if \<exists>r \<in> set (reads rd). isl r
       then data_file R' = data_file R \<and> (\<exists>e. printed R' = printed R @ [e])
       else printed R' = printed R \<and>
            (\<exists>row. data_file R' = data_file R @ [DataRow row] \<and>
               length row = 11 \<and> length headers = 11 \<and>
               map (\<lambda>c. Inr (cell_value c)) row = map (quantity (now - start_time R) rd) headers))"
  proof (cases "\<exists>r \<in> set (reads rd). isl r")
    case True
    from data_line_raises [OF True, of "now - start_time R"]
    obtain e where "data_line (now - start_time R) rd = Inl e" ..
    with True show ?thesis by (simp add: log_data_def)
  next
    case False
    then have ok: "\<forall>r \<in> set (reads rd). \<not> isl r" by blast
    have h: "length headers = 11" by (simp add: headers_def)
    show ?thesis
      using False h
      by (simp add: log_data_def data_line_ok [OF ok] quantity_row [OF ok])
  qed
  show "filter is_header (data_file (fold apply_op ops (new_logger t0 date v b))) = [HeaderRow headers]"
    by (simp add: fold_apply_op_header new_logger_file)
  show "\<forall>row \<in> set (data_rows (data_file (fold apply_op ops (new_logger t0 date v b)))).
      length row = length headers"
    using fold_apply_op_rows [of ops "new_logger t0 date v b"]
    by (auto simp: new_logger_file headers_def)
qed


theorem recorder_rows_witness:
  "data_file (apply_op (OpLogData 12
       \<lparr>altitude_stream = Inr 1500, speed_stream = Inr 120, vertical_speed_stream = Inr 100,
        horizontal_speed_stream = Inr 20, apoapsis_stream = Inr 3000, periapsis_stream = Inr (-590000),
        pitch_stream = Inl (Exception ''rpc''), heading_stream = Inr 90,
        liquid_fuel_amount = Inr 350, oxidizer_amount = Inl (Exception ''rpc'')\<rparr>)
     (new_logger 10 ''2026-01-01 09:05:30'' ''Sputnik'' ''Kerbin''))
     = init_file ''2026-01-01 09:05:30'' ''Sputnik'' ''Kerbin'' \<and>
   data_file (apply_op (OpLogData 12
       \<lparr>altitude_stream = Inr 1500, speed_stream = Inr 120, vertical_speed_stream = Inr 100,
        horizontal_speed_stream = Inr 20, apoapsis_stream = Inr 3000, periapsis_stream = Inr (-590000),
        pitch_stream = Inr 89, heading_stream = Inr 90,
        liquid_fuel_amount = Inr 350, oxidizer_amount = Inr 420\<rparr>)
     (new_logger 10 ''2026-01-01 09:05:30'' ''Sputnik'' ''Kerbin''))
     = init_file ''2026-01-01 09:05:30'' ''Sputnik'' ''Kerbin'' @
       [DataRow [Cell 6 1 2, Cell 8 2 (3 / 2), Cell 8 1 120, Cell 8 1 100, Cell 8 1 20, Cell 8 2 3,
                 Cell 8 2 (-590), Cell 8 1 89, Cell 8 1 90, Cell 8 1 350, Cell 8 1 420]]"
proof -
  let ?R = "new_logger 10 ''2026-01-01 09:05:30'' ''Sputnik'' ''Kerbin''"
  let ?bad = "\<lparr>altitude_stream = Inr 1500, speed_stream = Inr 120, vertical_speed_stream = Inr 100,
        horizontal_speed_stream = Inr 20, apoapsis_stream = Inr 3000, periapsis_stream = Inr (-590000),
        pitch_stream = Inl (Exception ''rpc''), heading_stream = Inr 90,
        liquid_fuel_amount = Inr 350, oxidizer_amount = Inl (Exception ''rpc'')\<rparr>"
  let ?good = "\<lparr>altitude_stream = Inr 1500, speed_stream = Inr 120, vertical_speed_stream = Inr 100,
        horizontal_speed_stream = Inr 20, apoapsis_stream = Inr 3000, periapsis_stream = Inr (-590000),
        pitch_stream = Inr 89, heading_stream = Inr 90,
        liquid_fuel_amount = Inr 350, oxidizer_amount = Inr 420\<rparr>"
  have b: "\<exists>r \<in> set (reads ?bad). isl r" by (simp add: reads_def)
  have g: "\<not> (\<exists>r \<in> set (reads ?good). isl r)" by (simp add: reads_def)
  from recorder_rows [THEN conjunct1, of 12 ?bad ?R] b
  obtain R' where "log_data 12 ?bad ?R = Inr R'" and "data_file R' = data_file ?R"
    by auto
  then have 1: "data_file (apply_op (OpLogData 12 ?bad) ?R) = data_file ?R"
    by simp
  from recorder_rows [THEN conjunct1, of 12 ?good ?R] g
  obtain R'' row where l: "log_data 12 ?good ?R = Inr R''"
    and r: "data_file R'' = data_file ?R @ [DataRow row]"
    and n: "length row = 11"
    by auto
  have "log_data 12 ?good ?R = Inr (?R\<lparr>data_file := data_file ?R @
       [DataRow [Cell 6 1 2, Cell 8 2 (3 / 2), Cell 8 1 120, Cell 8 1 100, Cell 8 1 20, Cell 8 2 3,
                 Cell 8 2 (-590), Cell 8 1 89, Cell 8 1 90, Cell 8 1 350, Cell 8 1 420]]\<rparr>)"
    by (simp add: log_data_def data_line_def then_read_def new_logger_def)
  then have 2: "data_file (apply_op (OpLogData 12 ?good) ?R) = data_file ?R @
       [DataRow [Cell 6 1 2, Cell 8 2 (3 / 2), Cell 8 1 120, Cell 8 1 100, Cell 8 1 20, Cell 8 2 3,
                 Cell 8 2 (-590), Cell 8 1 89, Cell 8 1 90, Cell 8 1 350, Cell 8 1 420]]"
    by simp
  from 1 2 show ?thesis by (simp add: new_logger_def)
qed

subsection \<open>The steps of the script\<close>

lemma commands_append [simp]: "commands (xs @ ys) = commands xs @ commands ys"
  by (simp add: commands_def map_filter_append)

lemma commands_Nil [simp]: "commands [] = []"
  by (simp add: commands_def)

lemma commands_Cons [simp]:
  "commands (e # es) = (case command_of e of None \<Rightarrow> commands es | Some c \<Rightarrow> c # commands es)"
  by (simp add: commands_def split: option.splits)

lemma command_of_say [simp]: "command_of (say t as) = None"
  by (simp add: say_def)

lemma emit_fields [simp]:
  "cur (emit es m) = cur m" "future (emit es m) = future m" "out (emit es m) = out m @ es"
  "recorder (emit es m) = recorder m" "last_report (emit es m) = last_report m"
  "last_data_log (emit es m) = last_data_log m" "fuel_warnings (emit es m) = fuel_warnings m"
  "target_pitch (emit es m) = target_pitch m" "fuel_empty (emit es m) = fuel_empty m"
  "maneuver_start_fuel (emit es m) = maneuver_start_fuel m"
  "maneuver_start_time (emit es m) = maneuver_start_time m"
  by (simp_all add: emit_def)

lemma data_tick_fields [simp]:
  "cur (data_tick d m) = cur m" "future (data_tick d m) = future m"
  "recorder (data_tick d m) = recorder m" "last_report (data_tick d m) = last_report m"
  "fuel_warnings (data_tick d m) = fuel_warnings m"
  "target_pitch (data_tick d m) = target_pitch m" "fuel_empty (data_tick d m) = fuel_empty m"
  "maneuver_start_fuel (data_tick d m) = maneuver_start_fuel m"
  "maneuver_start_time (data_tick d m) = maneuver_start_time m"
  by (simp_all add: data_tick_def)

lemma data_tick_commands [simp]: "commands (out (data_tick d m)) = commands (out m)"
  by (simp add: data_tick_def)

lemma pitch_program_fields [simp]:
  "cur (pitch_program m) = cur m" "future (pitch_program m) = future m"
  "recorder (pitch_program m) = recorder m" "last_report (pitch_program m) = last_report m"
  "last_data_log (pitch_program m) = last_data_log m"
  "fuel_warnings (pitch_program m) = fuel_warnings m" "fuel_empty (pitch_program m) = fuel_empty m"
  by (simp_all add: pitch_program_def Let_def)



lemma ascent_report_fields [simp]:
  "cur (ascent_report m) = cur m" "future (ascent_report m) = future m"
  "recorder (ascent_report m) = recorder m"
  "last_data_log (ascent_report m) = last_data_log m"
  "fuel_warnings (ascent_report m) = fuel_warnings m" "fuel_empty (ascent_report m) = fuel_empty m"
  "target_pitch (ascent_report m) = target_pitch m"
  "commands (out (ascent_report m)) = commands (out m)"
  by (simp_all add: ascent_report_def)

lemma fuel_advisory_fields [simp]:
  "cur (fuel_advisory m) = cur m" "future (fuel_advisory m) = future m"
  "recorder (fuel_advisory m) = recorder m" "last_report (fuel_advisory m) = last_report m"
  "last_data_log (fuel_advisory m) = last_data_log m" "fuel_empty (fuel_advisory m) = fuel_empty m"
  "target_pitch (fuel_advisory m) = target_pitch m"
  "commands (out (fuel_advisory m)) = commands (out m)"
  by (simp_all add: fuel_advisory_def low_fuel_def very_low_fuel_def)

lemma ascent_body_fields [simp]:
  "cur (ascent_body m) = cur m" "future (ascent_body m) = future m"
  "recorder (ascent_body m) = recorder m" "fuel_empty (ascent_body m) = fuel_empty m"
  by (simp_all add: ascent_body_def)




subsection \<open>The powered ascent\<close>

lemma pause_Nil: "future m = [] \<Longrightarrow> pause e m = Stalled (emit [e] m)"
  by (simp add: pause_def)

lemma pause_Cons:
  "future m = s # ss \<Longrightarrow> pause e m = Proceed ((emit [e] m)\<lparr>cur := s, future := ss\<rparr>)"
  by (simp add: pause_def)

lemma targets_append [simp]: "targets (xs @ ys) = targets xs @ targets ys"
  by (simp add: targets_def map_filter_append)

lemma targets_single [simp]:
  "targets [e] = (case command_of e of Some (ApTarget p h) \<Rightarrow> [p] | _ \<Rightarrow> [])"
  by (simp add: targets_def List.map_filter_def split: option.splits command.splits)






lemma ascent_entry_fields [simp]:
  "cur (ascent_entry m) = cur m" "future (ascent_entry m) = future m"
  "target_pitch (ascent_entry m) = pitch (cur m)" "fuel_warnings (ascent_entry m) = 0"
  "recorder (ascent_entry m) = recorder m" "fuel_empty (ascent_entry m) = fuel_empty m"
  "commands (out (ascent_entry m)) = commands (out m)"
  by (simp_all add: ascent_entry_def)

lemma turns_ascent_entry [simp]: "turns (ascent_entry m) = turns m"
  by (simp add: turns_def)




lemma advisories_append [simp]: "advisories (xs @ ys) = advisories xs @ advisories ys"
  by (simp add: advisories_def)

lemma advisories_data_tick [simp]: "advisories (out (data_tick d m)) = advisories (out m)"
  by (simp add: data_tick_def advisories_def)

lemma advisories_pitch_program [simp]: "advisories (out (pitch_program m)) = advisories (out m)"
  by (simp add: pitch_program_def Let_def advisories_def say_def)

lemma advisories_ascent_report [simp]: "advisories (out (ascent_report m)) = advisories (out m)"
  by (simp add: ascent_report_def advisories_def say_def)

lemma advisories_ascent_entry [simp]: "advisories (out (ascent_entry m)) = advisories (out m)"
  by (simp add: ascent_entry_def advisories_def say_def)

lemma fuel_advisory_out:
  "advisories (out (fuel_advisory m)) = advisories (out m) @
     (if fuel (cur m) < 100 \<and> fuel_warnings m = 0 then [low_fuel (fuel (cur m))]
      else if fuel (cur m) < 50 \<and> fuel_warnings m = 1 then [very_low_fuel (fuel (cur m))]
      else [])"
  by (simp add: fuel_advisory_def advisories_def low_fuel_def very_low_fuel_def say_def)

lemma fuel_advisory_warnings:
  "fuel_warnings (fuel_advisory m) =
     (if fuel (cur m) < 100 \<and> fuel_warnings m = 0 then fuel_warnings m + 1
      else if fuel (cur m) < 50 \<and> fuel_warnings m = 1 then fuel_warnings m + 1
      else fuel_warnings m)"
  by (simp add: fuel_advisory_def)

lemma ascent_body_advisories:
  "advisories (out (ascent_body m)) @ later_advisories (fuel_warnings (ascent_body m)) fs =
     advisories (out m) @ later_advisories (fuel_warnings m) (fuel (cur m) # fs)"
  by (simp add: ascent_body_def fuel_advisory_out fuel_advisory_warnings)

lemma polled_fuel_stop: "\<not> apoapsis (cur m) < 80000 \<Longrightarrow> polled_fuel m = []"
  by (simp add: polled_fuel_def)

lemma polled_fuel_step:
  "apoapsis (cur m) < 80000 \<Longrightarrow>
     polled_fuel m = fuel (cur m) # map fuel (takeWhile (\<lambda>s. apoapsis s < 80000) (future m))"
  by (simp add: polled_fuel_def)

lemma ascent_loop_advisories:
  "advisories (out (state_of (ascent_loop m))) =
     advisories (out m) @ later_advisories (fuel_warnings m) (polled_fuel m)"
proof (induction m rule: ascent_loop.induct)
  case (1 m)
  show ?case
  proof (cases "apoapsis (cur m) < 80000")
    case False
    then show ?thesis
      by (subst ascent_loop.simps) (simp add: polled_fuel_stop)
  next
    case True
    show ?thesis
    proof (cases "future m")
      case Nil
      then have "ascent_loop m = Stalled (emit [Sleep 0.2] (ascent_body m))"
        using True by (subst ascent_loop.simps) (simp add: pause_Nil)
      moreover have "polled_fuel m = [fuel (cur m)]"
        using True Nil by (simp add: polled_fuel_def)
      ultimately show ?thesis
        using ascent_body_advisories [of m "[]"] by (simp add: advisories_def)
    next
      case (Cons s ss)
      let ?m' = "(emit [Sleep 0.2] (ascent_body m))\<lparr>cur := s, future := ss\<rparr>"
      have p: "pause (Sleep 0.2) (ascent_body m) = Proceed ?m'"
        using Cons by (simp add: pause_Cons)
      have l: "ascent_loop m = ascent_loop ?m'"
        using True p by (subst ascent_loop.simps) simp
      have f: "polled_fuel m = fuel (cur m) # polled_fuel ?m'"
        using True Cons by (simp add: polled_fuel_def)
      have "advisories (out (state_of (ascent_loop m))) =
          advisories (out (ascent_body m)) @
            later_advisories (fuel_warnings (ascent_body m)) (polled_fuel ?m')"
        using "1.IH" [OF True p] by (simp add: l advisories_def)
      also have "\<dots> = advisories (out m) @
          later_advisories (fuel_warnings m) (fuel (cur m) # polled_fuel ?m')"
        by (rule ascent_body_advisories)
      finally show ?thesis by (simp only: f)
    qed
  qed
qed

lemma later_advisories_done: "2 \<le> w \<Longrightarrow> later_advisories w fs = []"
  by (induction fs) auto

lemma later_advisories_second:
  "later_advisories (Suc 0) fs =
     (case dropWhile (\<lambda>f. \<not> f < 50) fs of [] \<Rightarrow> [] | f1 # later \<Rightarrow> [very_low_fuel f1])"
  by (induction fs) (auto simp: later_advisories_done)

lemma later_advisories_first:
  "later_advisories 0 fs =
     (case dropWhile (\<lambda>f. \<not> f < 100) fs of
        [] \<Rightarrow> []
      | f0 # rest \<Rightarrow>
          low_fuel f0 #
          (case dropWhile (\<lambda>f. \<not> f < 50) rest of [] \<Rightarrow> [] | f1 # later \<Rightarrow> [very_low_fuel f1]))"
  by (induction fs) (auto simp: later_advisories_second)

text \<open>
  C2 (amended). Over the fuel readings of the iterations of the powered-ascent loop, the
  low-fuel advisory is given once, on the first reading below 100, and never if there is
  none; the stronger advisory is given at most once, on the first reading below 50 that
  comes after the reading of the low-fuel advisory. No other advisory is given. The
  readings 150, 90, 40 give the two advisories, in that order.
\<close>

theorem fuel_advisories:
  "advisories (out (state_of (ascent_loop (ascent_entry m)))) =
     advisories (out m) @
     (case dropWhile (\<lambda>f. \<not> f < 100) (polled_fuel m) of
        [] \<Rightarrow> []
      | f0 # rest \<Rightarrow>
          low_fuel f0 #
          (case dropWhile (\<lambda>f. \<not> f < 50) rest of [] \<Rightarrow> [] | f1 # later \<Rightarrow> [very_low_fuel f1])) \<and>
   (polled_fuel m = [150, 90, 40] \<longrightarrow>
      advisories (out (state_of (ascent_loop (ascent_entry m)))) =
        advisories (out m) @ [low_fuel 90, very_low_fuel 40])"
proof -
  have e: "polled_fuel (ascent_entry m) = polled_fuel m"
    by (simp add: polled_fuel_def)
  have a: "advisories (out (state_of (ascent_loop (ascent_entry m)))) =
     advisories (out m) @ later_advisories 0 (polled_fuel m)"
    using ascent_loop_advisories [of "ascent_entry m"] by (simp add: e)
  show ?thesis
    unfolding a by (simp add: later_advisories_first)
qed


theorem fuel_advisories_witness:
  "advisories (out (state_of (ascent_loop (ascent_entry
      (initial (on_pad\<lparr>fuel := 150\<rparr>)
         [on_pad\<lparr>fuel := 90\<rparr>, on_pad\<lparr>fuel := 40\<rparr>, on_pad\<lparr>fuel := 40, apoapsis := 80000\<rparr>]))))) =
     [low_fuel 90, very_low_fuel 40]"
proof -
  let ?m = "initial (on_pad\<lparr>fuel := 150\<rparr>)
         [on_pad\<lparr>fuel := 90\<rparr>, on_pad\<lparr>fuel := 40\<rparr>, on_pad\<lparr>fuel := 40, apoapsis := 80000\<rparr>]"
  have p: "polled_fuel ?m = [150, 90, 40]"
    by (simp add: polled_fuel_def initial_def on_pad_def)
  have o: "advisories (out ?m) = []"
    by (simp add: initial_def advisories_def)
  from fuel_advisories [of ?m] p o show ?thesis by simp
qed

text \<open>
  A reading that is the first below 100 and also below 50 gets the low-fuel advisory only
  (the second test is the \<^verbatim>\<open>elif\<close> of the first): the stronger advisory waits for the next
  reading below 50, and is not given when the loop ends before one.
\<close>

theorem strong_advisory_counterexample:
  "polled_fuel (initial (on_pad\<lparr>fuel := 150\<rparr>)
      [on_pad\<lparr>fuel := 40\<rparr>, on_pad\<lparr>fuel := 30, apoapsis := 80000\<rparr>]) = [150, 40] \<and>
   advisories (out (state_of (ascent_loop (ascent_entry
      (initial (on_pad\<lparr>fuel := 150\<rparr>)
         [on_pad\<lparr>fuel := 40\<rparr>, on_pad\<lparr>fuel := 30, apoapsis := 80000\<rparr>]))))) = [low_fuel 40] \<and>
   polled_fuel (initial (on_pad\<lparr>fuel := 150\<rparr>)
      [on_pad\<lparr>fuel := 40\<rparr>, on_pad\<lparr>fuel := 30\<rparr>, on_pad\<lparr>fuel := 20, apoapsis := 80000\<rparr>]) = [150, 40, 30] \<and>
   advisories (out (state_of (ascent_loop (ascent_entry
      (initial (on_pad\<lparr>fuel := 150\<rparr>)
         [on_pad\<lparr>fuel := 40\<rparr>, on_pad\<lparr>fuel := 30\<rparr>, on_pad\<lparr>fuel := 20, apoapsis := 80000\<rparr>]))))) =
     [low_fuel 40, very_low_fuel 30]"
proof -
  let ?a = "initial (on_pad\<lparr>fuel := 150\<rparr>)
      [on_pad\<lparr>fuel := 40\<rparr>, on_pad\<lparr>fuel := 30, apoapsis := 80000\<rparr>]"
  let ?b = "initial (on_pad\<lparr>fuel := 150\<rparr>)
      [on_pad\<lparr>fuel := 40\<rparr>, on_pad\<lparr>fuel := 30\<rparr>, on_pad\<lparr>fuel := 20, apoapsis := 80000\<rparr>]"
  have pa: "polled_fuel ?a = [150, 40]"
    by (simp add: polled_fuel_def initial_def on_pad_def)
  have pb: "polled_fuel ?b = [150, 40, 30]"
    by (simp add: polled_fuel_def initial_def on_pad_def)
  have ea: "polled_fuel (ascent_entry ?a) = polled_fuel ?a"
    by (simp add: polled_fuel_def)
  have eb: "polled_fuel (ascent_entry ?b) = polled_fuel ?b"
    by (simp add: polled_fuel_def)
  have oa: "advisories (out ?a) = []" by (simp add: initial_def advisories_def)
  have ob: "advisories (out ?b) = []" by (simp add: initial_def advisories_def)
  have a: "advisories (out (state_of (ascent_loop (ascent_entry ?a)))) = [low_fuel 40]"
    using ascent_loop_advisories [of "ascent_entry ?a"] by (simp add: ea pa oa)
  have b: "advisories (out (state_of (ascent_loop (ascent_entry ?b)))) =
      [low_fuel 40, very_low_fuel 30]"
    using ascent_loop_advisories [of "ascent_entry ?b"] by (simp add: eb pb ob)
  from pa a pb b show ?thesis by (intro conjI)
qed

subsection \<open>The circularization burn\<close>

lemma sections_append [simp]: "sections (xs @ ys) = sections xs @ sections ys"
  by (simp add: sections_def map_filter_append)

lemma sections_Nil [simp]: "sections [] = []"
  by (simp add: sections_def)

lemma sections_Cons [simp]:
  "sections (e # es) = (case section_title e of None \<Rightarrow> sections es | Some t \<Rightarrow> t # sections es)"
  by (simp add: sections_def split: option.splits)

lemma section_title_say [simp]: "section_title (say t as) = None"
  by (simp add: say_def)

lemma status_note_fields [simp]:
  "cur (status_note t as m) = cur m" "future (status_note t as m) = future m"
  "recorder (status_note t as m) = recorder m" "last_report (status_note t as m) = last_report m"
  "last_data_log (status_note t as m) = last_data_log m"
  "fuel_warnings (status_note t as m) = fuel_warnings m"
  "target_pitch (status_note t as m) = target_pitch m"
  "fuel_empty (status_note t as m) = fuel_empty m"
  "maneuver_start_fuel (status_note t as m) = maneuver_start_fuel m"
  "maneuver_start_time (status_note t as m) = maneuver_start_time m"
  "commands (out (status_note t as m)) = commands (out m)"
  "sections (out (status_note t as m)) = sections (out m)"
  by (simp_all add: status_note_def)

lemma data_tick_sections [simp]: "sections (out (data_tick d m)) = sections (out m)"
  by (simp add: data_tick_def)

lemma burn_report_fields [simp]:
  "cur (burn_report m) = cur m" "future (burn_report m) = future m"
  "recorder (burn_report m) = recorder m" "fuel_empty (burn_report m) = fuel_empty m"
  "last_data_log (burn_report m) = last_data_log m"
  "maneuver_start_fuel (burn_report m) = maneuver_start_fuel m"
  "maneuver_start_time (burn_report m) = maneuver_start_time m"
  "commands (out (burn_report m)) = commands (out m)"
  "sections (out (burn_report m)) = sections (out m)"
  by (simp_all add: burn_report_def)

lemma burn_exit_fields [simp]:
  "cur (burn_exit m) = cur m" "future (burn_exit m) = future m"
  "recorder (burn_exit m) = recorder m" "fuel_empty (burn_exit m) = fuel_empty m"
  "commands (out (burn_exit m)) = commands (out m) @ [SetThrottle 0]"
  "sections (out (burn_exit m)) = sections (out m)"
  by (simp_all add: burn_exit_def)

lemma analyse_result_quiet [simp]:
  "commands (analyse_result b p) = []" "sections (analyse_result b p) = []"
  by (simp_all add: analyse_result_def)

lemma summary_fields [simp]:
  "cur (summary cfg m) = cur m" "future (summary cfg m) = future m"
  "recorder (summary cfg m) = recorder m" "fuel_empty (summary cfg m) = fuel_empty m"
  "commands (out (summary cfg m)) = commands (out m) @ [CloseConnection]"
  "sections (out (summary cfg m)) = sections (out m) @ [''Mission results'']"
  by (simp_all add: summary_def finish_def orbit_report_def data_saved_def Let_def
        split: sum.splits)

lemma phases_last:
  "sections (out m) = ts @ [''Mission results''] \<Longrightarrow>
     last (phases m) = (if fuel_empty m then Aborted else MissionSummary)"
  by (simp add: phases_def map_filter_append List.map_filter_def phase_of_def)

lemma burn_loop_stop: "\<not> periapsis (cur m) < 75000 \<Longrightarrow> burn_loop m = Proceed m"
  by (subst burn_loop.simps) simp

lemma burn_loop_dry:
  "periapsis (cur m) < 75000 \<Longrightarrow> fuel (cur m) \<le> 0.1 \<or> oxidizer (cur m) \<le> 0.1 \<Longrightarrow>
     burn_loop m = Proceed ((emit [out_of_fuel] (data_tick 0.3 m))\<lparr>fuel_empty := True\<rparr>)"
  by (subst burn_loop.simps) (simp add: Let_def)

lemma burn_loop_step:
  "periapsis (cur m) < 75000 \<Longrightarrow> 0.1 < fuel (cur m) \<Longrightarrow> 0.1 < oxidizer (cur m) \<Longrightarrow>
   future m = s # ss \<Longrightarrow>
     burn_loop m =
       burn_loop ((emit [Sleep 0.2] (burn_report (data_tick 0.3 m)))\<lparr>cur := s, future := ss\<rparr>)"
  by (subst burn_loop.simps) (simp add: Let_def pause_Cons)

lemma burn_loop_run:
  assumes "cur m # future m = pre @ s # rest"
    and "\<forall>x \<in> set pre. periapsis x < 75000 \<and> 0.1 < fuel x \<and> 0.1 < oxidizer x"
  shows "\<exists>m0. burn_loop m = burn_loop m0 \<and> cur m0 = s \<and> future m0 = rest \<and>
           fuel_empty m0 = fuel_empty m \<and> recorder m0 = recorder m \<and>
           commands (out m0) = commands (out m) \<and> sections (out m0) = sections (out m)"
  using assms
proof (induction pre arbitrary: m)
  case Nil
  then show ?case by auto
next
  case (Cons p pre)
  from Cons.prems(1) have c: "cur m = p" and f: "future m = pre @ s # rest" by simp_all
  from Cons.prems(2) c have b: "periapsis (cur m) < 75000" "0.1 < fuel (cur m)"
    "0.1 < oxidizer (cur m)" by simp_all
  obtain x xs where fx: "future m = x # xs" and xs: "x # xs = pre @ s # rest"
    using f by (cases "future m") auto
  let ?m' = "(emit [Sleep 0.2] (burn_report (data_tick 0.3 m)))\<lparr>cur := x, future := xs\<rparr>"
  have l: "burn_loop m = burn_loop ?m'"
    using b fx by (rule burn_loop_step)
  have "cur ?m' # future ?m' = pre @ s # rest" using xs by simp
  moreover have "\<forall>x \<in> set pre. periapsis x < 75000 \<and> 0.1 < fuel x \<and> 0.1 < oxidizer x"
    using Cons.prems(2) by simp
  ultimately obtain m0 where "burn_loop ?m' = burn_loop m0" "cur m0 = s" "future m0 = rest"
    "fuel_empty m0 = fuel_empty ?m'" "recorder m0 = recorder ?m'"
    "commands (out m0) = commands (out ?m')" "sections (out m0) = sections (out ?m')"
    using Cons.IH [of ?m'] by blast
  then show ?case using l by (intro exI [of _ m0]) simp
qed


text \<open>
  C3. Let the circularization loop read the snapshots \<open>pre\<close>, all with the periapsis below
  75000 and fuel and oxidizer above 0.1, and then \<open>s\<close>. If \<open>s\<close> has the periapsis below
  75000 and fuel or oxidizer at most 0.1, the loop ends on \<open>s\<close> with \<open>fuel_empty\<close> set,
  without sleeping or reading again, and the run ends in \<open>Aborted\<close>. If \<open>s\<close> has the
  periapsis at 75000 or more, the loop ends on \<open>s\<close> with \<open>fuel_empty\<close> unset and the run
  ends in \<open>MissionSummary\<close>. In both cases the loop gives no command, and the first command
  after it sets the throttle to zero, followed only by the closing of the connection.
\<close>

theorem burn_loop_exit:
  assumes "cur m # future m = pre @ s # rest"
    and "\<forall>x \<in> set pre. periapsis x < 75000 \<and> 0.1 < fuel x \<and> 0.1 < oxidizer x"
  shows "(periapsis s < 75000 \<and> (fuel s \<le> 0.1 \<or> oxidizer s \<le> 0.1) \<longrightarrow>
          (\<exists>m'. burn_loop m = Proceed m' \<and> fuel_empty m' \<and> cur m' = s \<and> future m' = rest \<and>
             last (out m') = out_of_fuel \<and> commands (out m') = commands (out m) \<and>
             commands (out (summary cfg (burn_exit m'))) =
               commands (out m) @ [SetThrottle 0, CloseConnection] \<and>
             last (phases (summary cfg (burn_exit m'))) = Aborted)) \<and>
         (75000 \<le> periapsis s \<and> \<not> fuel_empty m \<longrightarrow>
          (\<exists>m'. burn_loop m = Proceed m' \<and> \<not> fuel_empty m' \<and> cur m' = s \<and> future m' = rest \<and>
             commands (out m') = commands (out m) \<and>
             commands (out (summary cfg (burn_exit m'))) =
               commands (out m) @ [SetThrottle 0, CloseConnection] \<and>
             last (phases (summary cfg (burn_exit m'))) = MissionSummary))"
proof -
  from burn_loop_run [OF assms]
  obtain m0 where l: "burn_loop m = burn_loop m0" and c: "cur m0 = s" "future m0 = rest"
    and k: "fuel_empty m0 = fuel_empty m" "commands (out m0) = commands (out m)"
    by blast
  have ph: "\<And>m'. last (phases (summary cfg (burn_exit m'))) =
      (if fuel_empty m' then Aborted else MissionSummary)"
    by (rule phases_last [where ts = "sections (out m')" for m', THEN trans]) simp_all
  show ?thesis
  proof (intro conjI impI)
    assume a: "periapsis s < 75000 \<and> (fuel s \<le> 0.1 \<or> oxidizer s \<le> 0.1)"
    let ?m' = "(emit [out_of_fuel] (data_tick 0.3 m0))\<lparr>fuel_empty := True\<rparr>"
    have "burn_loop m0 = Proceed ?m'"
      using a c by (intro burn_loop_dry) simp_all
    then show "\<exists>m'. burn_loop m = Proceed m' \<and> fuel_empty m' \<and> cur m' = s \<and> future m' = rest \<and>
             last (out m') = out_of_fuel \<and> commands (out m') = commands (out m) \<and>
             commands (out (summary cfg (burn_exit m'))) =
               commands (out m) @ [SetThrottle 0, CloseConnection] \<and>
             last (phases (summary cfg (burn_exit m'))) = Aborted"
      using l c k by (intro exI [of _ ?m']) (simp add: ph out_of_fuel_def)
  next
    assume a: "75000 \<le> periapsis s \<and> \<not> fuel_empty m"
    have "burn_loop m0 = Proceed m0"
      using a c by (intro burn_loop_stop) simp
    then show "\<exists>m'. burn_loop m = Proceed m' \<and> \<not> fuel_empty m' \<and> cur m' = s \<and> future m' = rest \<and>
             commands (out m') = commands (out m) \<and>
             commands (out (summary cfg (burn_exit m'))) =
               commands (out m) @ [SetThrottle 0, CloseConnection] \<and>
             last (phases (summary cfg (burn_exit m'))) = MissionSummary"
      using l c k a by (intro exI [of _ m0]) (simp add: ph)
  qed
qed


theorem burn_loop_exit_witness:
  "fuel_empty (state_of (burn_loop (initial (on_pad\<lparr>periapsis := 20000, fuel := 5\<rparr>)
      [on_pad\<lparr>periapsis := 30000, fuel := 0.1\<rparr>, on_pad\<lparr>periapsis := 31000, fuel := 0\<rparr>]))) \<and>
   cur (state_of (burn_loop (initial (on_pad\<lparr>periapsis := 20000, fuel := 5\<rparr>)
      [on_pad\<lparr>periapsis := 30000, fuel := 0.1\<rparr>, on_pad\<lparr>periapsis := 31000, fuel := 0\<rparr>]))) =
     on_pad\<lparr>periapsis := 30000, fuel := 0.1\<rparr> \<and>
   commands (out (summary nominal (burn_exit (state_of (burn_loop
      (initial (on_pad\<lparr>periapsis := 20000, fuel := 5\<rparr>)
      [on_pad\<lparr>periapsis := 30000, fuel := 0.1\<rparr>, on_pad\<lparr>periapsis := 31000, fuel := 0\<rparr>])))))) =
     [SetThrottle 0, CloseConnection] \<and>
   last (phases (summary nominal (burn_exit (state_of (burn_loop
      (initial (on_pad\<lparr>periapsis := 20000, fuel := 5\<rparr>)
      [on_pad\<lparr>periapsis := 30000, fuel := 0.1\<rparr>, on_pad\<lparr>periapsis := 31000, fuel := 0\<rparr>])))))) = Aborted \<and>
   last (phases (summary nominal (burn_exit (state_of (burn_loop
      (initial (on_pad\<lparr>periapsis := 20000, fuel := 5\<rparr>) [on_pad\<lparr>periapsis := 75000\<rparr>])))))) =
     MissionSummary \<and>
   commands (out (summary nominal (burn_exit (state_of (burn_loop
      (initial (on_pad\<lparr>periapsis := 20000, fuel := 5\<rparr>) [on_pad\<lparr>periapsis := 75000\<rparr>])))))) =
     [SetThrottle 0, CloseConnection]"
proof -
  let ?a = "on_pad\<lparr>periapsis := 20000, fuel := 5\<rparr>"
  let ?b = "on_pad\<lparr>periapsis := 30000, fuel := 0.1\<rparr>"
  let ?c = "on_pad\<lparr>periapsis := 31000, fuel := 0\<rparr>"
  let ?d = "on_pad\<lparr>periapsis := 75000\<rparr>"
  let ?m = "initial ?a [?b, ?c]"
  let ?n = "initial ?a [?d]"
  have 1: "cur ?m # future ?m = [?a] @ ?b # [?c]" by (simp add: initial_def)
  have 2: "cur ?n # future ?n = [?a] @ ?d # []" by (simp add: initial_def)
  have 3: "\<forall>x \<in> set [?a]. periapsis x < 75000 \<and> 0.1 < fuel x \<and> 0.1 < oxidizer x"
    by (simp add: on_pad_def)
  have 4: "periapsis ?b < 75000 \<and> (fuel ?b \<le> 0.1 \<or> oxidizer ?b \<le> 0.1)"
    by (simp add: on_pad_def)
  have 5: "75000 \<le> periapsis ?d \<and> \<not> fuel_empty ?n"
    by (simp add: on_pad_def initial_def)
  have o: "commands (out ?m) = []" "commands (out ?n) = []" by (simp_all add: initial_def)
  from burn_loop_exit [OF 1 3, of nominal] 4
  obtain m' where "burn_loop ?m = Proceed m'" "fuel_empty m'" "cur m' = ?b"
    "commands (out (summary nominal (burn_exit m'))) = commands (out ?m) @ [SetThrottle 0, CloseConnection]"
    "last (phases (summary nominal (burn_exit m'))) = Aborted"
    by blast
  moreover from burn_loop_exit [OF 2 3, of nominal] 5
  obtain n' where "burn_loop ?n = Proceed n'"
    "commands (out (summary nominal (burn_exit n'))) = commands (out ?n) @ [SetThrottle 0, CloseConnection]"
    "last (phases (summary nominal (burn_exit n'))) = MissionSummary"
    by blast
  ultimately show ?thesis by (simp add: o)
qed

subsection \<open>The turn at 10 km\<close>

lemma gravity_turn_body_fields [simp]:
  "cur (gravity_turn_body m) = cur m" "future (gravity_turn_body m) = future m"
  "recorder (gravity_turn_body m) = recorder m" "fuel_empty (gravity_turn_body m) = fuel_empty m"
  "commands (out (gravity_turn_body m)) = commands (out m)"
  "sections (out (gravity_turn_body m)) = sections (out m)"
  by (simp_all add: gravity_turn_body_def gravity_turn_report_def)

lemma gravity_turn_loop_stop: "\<not> altitude (cur m) < 10000 \<Longrightarrow> gravity_turn_loop m = Proceed m"
  by (subst gravity_turn_loop.simps) simp

lemma gravity_turn_loop_step:
  "altitude (cur m) < 10000 \<Longrightarrow> future m = s # ss \<Longrightarrow>
     gravity_turn_loop m =
       gravity_turn_loop ((emit [Sleep 0.1] (gravity_turn_body m))\<lparr>cur := s, future := ss\<rparr>)"
  by (subst gravity_turn_loop.simps) (simp add: pause_Cons)

lemma gravity_turn_loop_run:
  assumes "cur m # future m = pre @ s # rest"
    and "\<forall>x \<in> set pre. altitude x < 10000" and "10000 \<le> altitude s"
  shows "\<exists>m'. gravity_turn_loop m = Proceed m' \<and> cur m' = s \<and> future m' = rest \<and>
           fuel_empty m' = fuel_empty m \<and> recorder m' = recorder m \<and>
           commands (out m') = commands (out m) \<and> sections (out m') = sections (out m)"
  using assms
proof (induction pre arbitrary: m)
  case Nil
  then have "gravity_turn_loop m = Proceed m" by (intro gravity_turn_loop_stop) simp
  with Nil show ?case by simp
next
  case (Cons p pre)
  from Cons.prems(1) have c: "cur m = p" and f: "future m = pre @ s # rest" by simp_all
  from Cons.prems(2) c have b: "altitude (cur m) < 10000" by simp
  obtain x xs where fx: "future m = x # xs" and xs: "x # xs = pre @ s # rest"
    using f by (cases "future m") auto
  let ?m' = "(emit [Sleep 0.1] (gravity_turn_body m))\<lparr>cur := x, future := xs\<rparr>"
  have l: "gravity_turn_loop m = gravity_turn_loop ?m'"
    using b fx by (rule gravity_turn_loop_step)
  have "cur ?m' # future ?m' = pre @ s # rest" using xs by simp
  moreover have "\<forall>x \<in> set pre. altitude x < 10000" using Cons.prems(2) by simp
  ultimately obtain m0 where "gravity_turn_loop ?m' = Proceed m0" "cur m0 = s" "future m0 = rest"
    "fuel_empty m0 = fuel_empty ?m'" "recorder m0 = recorder ?m'"
    "commands (out m0) = commands (out ?m')" "sections (out m0) = sections (out ?m')"
    using Cons.IH [of ?m'] Cons.prems(3) by blast
  then show ?case using l by (intro exI [of _ m0]) simp
qed

lemma pitch_over_run:
  assumes "future m = w1 # w2 # rest"
  shows "\<exists>m'. pitch_over m = Proceed m' \<and> cur m' = w2 \<and> future m' = rest \<and>
           fuel_empty m' = fuel_empty m \<and> recorder m' = recorder m \<and>
           commands (out m') = commands (out m) @
             [SetSas False, ApSetSurfaceFrame, ApEngage, ApTarget 70 90, ApWait, ApDisengage] \<and>
           sections (out m') = sections (out m)"
  using assms by (simp add: pitch_over_def pause_Cons and_then_def)

text \<open>
  C7 (amended). When the wait for 10 km has read the snapshots \<open>pre\<close>, all below 10000, and
  then \<open>g\<close> at 10000 or above, it ends on \<open>g\<close>, and the commands that follow are: SAS off,
  the autopilot set to the surface frame and engaged, the target pitch 70 at heading 90,
  the wait for the autopilot, and its disengagement. The target is the constant 70 (20
  less than the vertical 90), whatever pitch the vehicle had. No command comes between the
  disengagement and the powered-ascent loop.
\<close>

theorem pitch_over_commands:
  assumes "cur m # future m = pre @ g # w1 # w2 # rest"
    and "\<forall>x \<in> set pre. altitude x < 10000" and "10000 \<le> altitude g"
  shows "\<exists>m'. and_then (gravity_turn_loop m) pitch_over = Proceed m' \<and>
           cur m' = w2 \<and> future m' = rest \<and>
           commands (out m') = commands (out m) @
             [SetSas False, ApSetSurfaceFrame, ApEngage, ApTarget 70 90, ApWait, ApDisengage] \<and>
           commands (out (ascent_entry m')) = commands (out m')"
proof -
  from gravity_turn_loop_run [OF assms]
  obtain m1 where 1: "gravity_turn_loop m = Proceed m1" "cur m1 = g"
    "future m1 = w1 # w2 # rest" "commands (out m1) = commands (out m)"
    by blast
  from pitch_over_run [OF 1(3)]
  obtain m2 where 2: "pitch_over m1 = Proceed m2" "cur m2 = w2" "future m2 = rest"
    "commands (out m2) = commands (out m1) @
       [SetSas False, ApSetSurfaceFrame, ApEngage, ApTarget 70 90, ApWait, ApDisengage]"
    by blast
  show ?thesis
    using 1 2 by (intro exI [of _ m2]) (simp add: and_then_def)
qed

theorem pitch_over_commands_witness:
  "commands (out (state_of (and_then (gravity_turn_loop
      (initial (on_pad\<lparr>altitude := 9000\<rparr>)
         [on_pad\<lparr>altitude := 10000\<rparr>, on_pad\<lparr>altitude := 10100\<rparr>, on_pad\<lparr>altitude := 10500, pitch := 70\<rparr>]))
      pitch_over))) =
     [SetSas False, ApSetSurfaceFrame, ApEngage, ApTarget 70 90, ApWait, ApDisengage]"
proof -
  let ?m = "initial (on_pad\<lparr>altitude := 9000\<rparr>)
         [on_pad\<lparr>altitude := 10000\<rparr>, on_pad\<lparr>altitude := 10100\<rparr>, on_pad\<lparr>altitude := 10500, pitch := 70\<rparr>]"
  have 1: "cur ?m # future ?m = [on_pad\<lparr>altitude := 9000\<rparr>] @ on_pad\<lparr>altitude := 10000\<rparr> #
      on_pad\<lparr>altitude := 10100\<rparr> # on_pad\<lparr>altitude := 10500, pitch := 70\<rparr> # []"
    by (simp add: initial_def)
  have 2: "\<forall>x \<in> set [on_pad\<lparr>altitude := 9000\<rparr>]. altitude x < 10000" by simp
  have 3: "10000 \<le> altitude (on_pad\<lparr>altitude := 10000\<rparr>)" by simp
  have o: "commands (out ?m) = []" by (simp add: initial_def)
  from pitch_over_commands [OF 1 2 3] o show ?thesis by auto
qed

text \<open>With a pitch of 85 before the turn the target is 70, not 65.\<close>

theorem pitch_over_fixed_target_counterexample:
  "targets (out (state_of (pitch_over
      (initial (on_pad\<lparr>altitude := 10000, pitch := 85\<rparr>)
         [on_pad\<lparr>altitude := 10100, pitch := 85\<rparr>, on_pad\<lparr>altitude := 10500, pitch := 70\<rparr>])))) = [70] \<and>
   pitch (cur (initial (on_pad\<lparr>altitude := 10000, pitch := 85\<rparr>)
         [on_pad\<lparr>altitude := 10100, pitch := 85\<rparr>, on_pad\<lparr>altitude := 10500, pitch := 70\<rparr>])) - 20 = 65"
  by (simp add: pitch_over_def pause_def and_then_def initial_def targets_def emit_def
        status_note_def List.map_filter_def)

subsection \<open>The polling loops on a trace\<close>

lemma data_tick_out: "set (out m) \<subseteq> set (out (data_tick d m))"
  by (auto simp: data_tick_def)

lemma gravity_turn_body_out: "set (out m) \<subseteq> set (out (gravity_turn_body m))"
  using data_tick_out [of m "0.5"]
  by (auto simp: gravity_turn_body_def gravity_turn_report_def)

lemma gravity_turn_loop_out: "set (out m) \<subseteq> set (out (state_of (gravity_turn_loop m)))"
proof (induction m rule: gravity_turn_loop.induct)
  case (1 m)
  show ?case
  proof (cases "altitude (cur m) < 10000")
    case False
    then show ?thesis by (simp add: gravity_turn_loop_stop)
  next
    case True
    show ?thesis
    proof (cases "future m")
      case Nil
      then have "gravity_turn_loop m = Stalled (emit [Sleep 0.1] (gravity_turn_body m))"
        using True by (subst gravity_turn_loop.simps) (simp add: pause_Nil)
      then show ?thesis using gravity_turn_body_out [of m] by auto
    next
      case (Cons s ss)
      let ?m' = "(emit [Sleep 0.1] (gravity_turn_body m))\<lparr>cur := s, future := ss\<rparr>"
      have p: "pause (Sleep 0.1) (gravity_turn_body m) = Proceed ?m'"
        using Cons by (simp add: pause_Cons)
      have l: "gravity_turn_loop m = gravity_turn_loop ?m'"
        using True Cons by (rule gravity_turn_loop_step)
      from "1.IH" [OF True p] gravity_turn_body_out [of m] show ?thesis
        by (auto simp: l)
    qed
  qed
qed

lemma ascent_body_more [simp]:
  "sections (out (ascent_body m)) = sections (out m)"
  by (simp add: ascent_body_def fuel_advisory_def low_fuel_def very_low_fuel_def
        ascent_report_def pitch_program_def Let_def)

lemma ascent_body_out: "set (out m) \<subseteq> set (out (ascent_body m))"
  using data_tick_out [of m "0.5"]
  by (auto simp: ascent_body_def fuel_advisory_def ascent_report_def pitch_program_def Let_def)

lemma ascent_loop_stop: "\<not> apoapsis (cur m) < 80000 \<Longrightarrow> ascent_loop m = Proceed m"
  by (subst ascent_loop.simps) simp

lemma ascent_loop_step:
  "apoapsis (cur m) < 80000 \<Longrightarrow> future m = s # ss \<Longrightarrow>
     ascent_loop m = ascent_loop ((emit [Sleep 0.2] (ascent_body m))\<lparr>cur := s, future := ss\<rparr>)"
  by (subst ascent_loop.simps) (simp add: pause_Cons)

lemma ascent_loop_run:
  assumes "cur m # future m = pre @ s # rest"
    and "\<forall>x \<in> set pre. apoapsis x < 80000" and "80000 \<le> apoapsis s"
  shows "\<exists>m'. ascent_loop m = Proceed m' \<and> cur m' = s \<and> future m' = rest \<and>
           fuel_empty m' = fuel_empty m \<and> recorder m' = recorder m \<and>
           sections (out m') = sections (out m) \<and> set (out m) \<subseteq> set (out m')"
  using assms
proof (induction pre arbitrary: m)
  case Nil
  then have "ascent_loop m = Proceed m" by (intro ascent_loop_stop) simp
  with Nil show ?case by simp
next
  case (Cons p pre)
  from Cons.prems(1) have c: "cur m = p" and f: "future m = pre @ s # rest" by simp_all
  from Cons.prems(2) c have b: "apoapsis (cur m) < 80000" by simp
  obtain x xs where fx: "future m = x # xs" and xs: "x # xs = pre @ s # rest"
    using f by (cases "future m") auto
  let ?m' = "(emit [Sleep 0.2] (ascent_body m))\<lparr>cur := x, future := xs\<rparr>"
  have l: "ascent_loop m = ascent_loop ?m'"
    using b fx by (rule ascent_loop_step)
  have "cur ?m' # future ?m' = pre @ s # rest" using xs by simp
  moreover have "\<forall>x \<in> set pre. apoapsis x < 80000" using Cons.prems(2) by simp
  ultimately obtain m0 where "ascent_loop ?m' = Proceed m0" "cur m0 = s" "future m0 = rest"
    "fuel_empty m0 = fuel_empty ?m'" "recorder m0 = recorder ?m'"
    "sections (out m0) = sections (out ?m')" "set (out ?m') \<subseteq> set (out m0)"
    using Cons.IH [of ?m'] Cons.prems(3) by blast
  then show ?case using l ascent_body_out [of m] by (intro exI [of _ m0]) auto
qed

lemma coast_body_fields [simp]:
  "cur (coast_body m) = cur m" "future (coast_body m) = future m"
  "recorder (coast_body m) = recorder m" "fuel_empty (coast_body m) = fuel_empty m"
  "commands (out (coast_body m)) = commands (out m)"
  "sections (out (coast_body m)) = sections (out m)"
  by (simp_all add: coast_body_def Let_def)

lemma coast_body_out: "set (out m) \<subseteq> set (out (coast_body m))"
  using data_tick_out [of m "1.0"] by (auto simp: coast_body_def Let_def)

lemma coast_loop_stop: "\<not> altitude (cur m) < 78000 \<Longrightarrow> coast_loop m = Proceed m"
  by (subst coast_loop.simps) simp

lemma coast_loop_step:
  "altitude (cur m) < 78000 \<Longrightarrow> future m = s # ss \<Longrightarrow>
     coast_loop m = coast_loop ((emit [Sleep 0.5] (coast_body m))\<lparr>cur := s, future := ss\<rparr>)"
  by (subst coast_loop.simps) (simp add: pause_Cons)

lemma coast_loop_run:
  assumes "cur m # future m = pre @ s # rest"
    and "\<forall>x \<in> set pre. altitude x < 78000" and "78000 \<le> altitude s"
  shows "\<exists>m'. coast_loop m = Proceed m' \<and> cur m' = s \<and> future m' = rest \<and>
           fuel_empty m' = fuel_empty m \<and> recorder m' = recorder m \<and>
           sections (out m') = sections (out m) \<and> set (out m) \<subseteq> set (out m')"
  using assms
proof (induction pre arbitrary: m)
  case Nil
  then have "coast_loop m = Proceed m" by (intro coast_loop_stop) simp
  with Nil show ?case by simp
next
  case (Cons p pre)
  from Cons.prems(1) have c: "cur m = p" and f: "future m = pre @ s # rest" by simp_all
  from Cons.prems(2) c have b: "altitude (cur m) < 78000" by simp
  obtain x xs where fx: "future m = x # xs" and xs: "x # xs = pre @ s # rest"
    using f by (cases "future m") auto
  let ?m' = "(emit [Sleep 0.5] (coast_body m))\<lparr>cur := x, future := xs\<rparr>"
  have l: "coast_loop m = coast_loop ?m'"
    using b fx by (rule coast_loop_step)
  have "cur ?m' # future ?m' = pre @ s # rest" using xs by simp
  moreover have "\<forall>x \<in> set pre. altitude x < 78000" using Cons.prems(2) by simp
  ultimately obtain m0 where "coast_loop ?m' = Proceed m0" "cur m0 = s" "future m0 = rest"
    "fuel_empty m0 = fuel_empty ?m'" "recorder m0 = recorder ?m'"
    "sections (out m0) = sections (out ?m')" "set (out ?m') \<subseteq> set (out m0)"
    using Cons.IH [of ?m'] Cons.prems(3) by blast
  then show ?case using l coast_body_out [of m] by (intro exI [of _ m0]) auto
qed

subsection \<open>The whole mission\<close>

lemma burn_report_out: "set (out m) \<subseteq> set (out (burn_report m))"
  by (auto simp: burn_report_def)

lemma burn_loop_out: "set (out m) \<subseteq> set (out (state_of (burn_loop m)))"
proof (induction m rule: burn_loop.induct)
  case (1 m)
  show ?case
  proof (cases "periapsis (cur m) < 75000")
    case False
    then show ?thesis by (simp add: burn_loop_stop)
  next
    case True
    show ?thesis
    proof (cases "fuel (cur m) \<le> 0.1 \<or> oxidizer (cur m) \<le> 0.1")
      case dry: True
      from burn_loop_dry [OF True dry] data_tick_out [of m "0.3"] show ?thesis by auto
    next
      case False
      then have w: "0.1 < fuel (cur m)" "0.1 < oxidizer (cur m)" by auto
      have d: "\<not> (fuel (cur (data_tick 0.3 m)) \<le> 0.1 \<or> oxidizer (cur (data_tick 0.3 m)) \<le> 0.1)"
        using False by simp
      show ?thesis
      proof (cases "future m")
        case Nil
        then have "burn_loop m = Stalled (emit [Sleep 0.2] (burn_report (data_tick 0.3 m)))"
          using True False by (subst burn_loop.simps) (simp add: pause_Nil Let_def)
        then show ?thesis
          using data_tick_out [of m "0.3"] burn_report_out [of "data_tick 0.3 m"] by auto
      next
        case (Cons s ss)
        let ?m' = "(emit [Sleep 0.2] (burn_report (data_tick 0.3 m)))\<lparr>cur := s, future := ss\<rparr>"
        have p: "pause (Sleep 0.2) (burn_report (data_tick 0.3 m)) = Proceed ?m'"
          using Cons by (simp add: pause_Cons)
        have l: "burn_loop m = burn_loop ?m'"
          using True w Cons by (rule burn_loop_step)
        from "1.IH" [OF True refl d p] data_tick_out [of m "0.3"]
          burn_report_out [of "data_tick 0.3 m"]
        show ?thesis by (auto simp: l)
      qed
    qed
  qed
qed

lemma start_fields [simp]:
  "cur (start cfg m) = cur m" "future (start cfg m) = future m"
  "fuel_empty (start cfg m) = fuel_empty m"
  "sections (out (start cfg m)) = sections (out m) @ [''Vessel information'']"
  "recorder (start cfg m) \<longleftrightarrow> recorder m \<or> \<not> isl (recorder_ctor cfg)"
  by (simp_all add: start_def create_recorder_def split: sum.splits error.splits)

lemma ignition_run:
  assumes "future m = i1 # i2 # i3 # i4 # rest"
  shows "\<exists>m'. ignition m = Proceed m' \<and> cur m' = i4 \<and> future m' = rest \<and>
           fuel_empty m' = fuel_empty m \<and> recorder m' = recorder m \<and>
           sections (out m') = sections (out m) @ [''Phase 1: Engine start'']"
  using assms by (simp add: ignition_def countdown_def pause_Cons and_then_def)

lemma sas_radial_out_run:
  assumes "future m = x # rest"
  shows "\<exists>m'. sas_radial_out cfg m = Proceed m' \<and> cur m' = x \<and> future m' = rest \<and>
           fuel_empty m' = fuel_empty m \<and> recorder m' = recorder m \<and>
           sections (out m') = sections (out m)"
  using assms
  by (simp add: sas_radial_out_def pause_Cons and_then_def split: sum.splits error.splits)

lemma gravity_turn_entry_fields [simp]:
  "cur (gravity_turn_entry m) = cur m" "future (gravity_turn_entry m) = future m"
  "fuel_empty (gravity_turn_entry m) = fuel_empty m"
  "sections (out (gravity_turn_entry m)) = sections (out m) @ [''Phase 2: Gravity turn'']"
  by (simp_all add: gravity_turn_entry_def)

lemma pitch_over_log:
  assumes "future m = w1 # w2 # rest"
  shows "say ''[ok] 10 km reached (%.1f km)'' [Num (altitude (cur m) / 1000)]
           \<in> set (out (state_of (pitch_over m)))"
  using assms by (simp add: pitch_over_def pause_Cons and_then_def status_note_def)

lemma ascent_entry_sections [simp]:
  "sections (out (ascent_entry m)) = sections (out m) @ [''Phase 3: Ascent to 80 km apoapsis'']"
  "set (out m) \<subseteq> set (out (ascent_entry m))"
  by (auto simp: ascent_entry_def)

lemma engine_cutoff_fields [simp]:
  "cur (engine_cutoff m) = cur m" "future (engine_cutoff m) = future m"
  "fuel_empty (engine_cutoff m) = fuel_empty m"
  "sections (out (engine_cutoff m)) = sections (out m)"
  "set (out m) \<subseteq> set (out (engine_cutoff m))"
  "say ''[ok] Apoapsis %.1f km reached'' [Num (apoapsis (cur m) / 1000)] \<in> set (out (engine_cutoff m))"
  by (auto simp: engine_cutoff_def status_note_def)

lemma deploy_each_sections [simp]: "sections (fst (deploy_each i ps n)) = []"
  by (induction i ps n rule: deploy_each.induct) (simp_all add: split_def Let_def)

lemma deploy_solar_panels_fields [simp]:
  "cur (deploy_solar_panels cfg m) = cur m" "future (deploy_solar_panels cfg m) = future m"
  "fuel_empty (deploy_solar_panels cfg m) = fuel_empty m"
  "sections (out (deploy_solar_panels cfg m)) = sections (out m) @ [''Phase 4: Systems deployment'']"
  "set (out m) \<subseteq> set (out (deploy_solar_panels cfg m))"
  by (auto simp: deploy_solar_panels_def split_def Let_def status_note_def)

lemma coast_entry_fields [simp]:
  "cur (coast_entry m) = cur m" "future (coast_entry m) = future m"
  "fuel_empty (coast_entry m) = fuel_empty m"
  "sections (out (coast_entry m)) = sections (out m) @ [''Phase 5: Waiting for apoapsis'']"
  "set (out m) \<subseteq> set (out (coast_entry m))"
  by (auto simp: coast_entry_def status_note_def)

lemma coast_exit_fields [simp]:
  "cur (coast_exit m) = cur m" "future (coast_exit m) = future m"
  "fuel_empty (coast_exit m) = fuel_empty m"
  "sections (out (coast_exit m)) = sections (out m)"
  "set (out m) \<subseteq> set (out (coast_exit m))"
  "say ''[ok] Altitude %.1f km reached'' [Num (altitude (cur m) / 1000)] \<in> set (out (coast_exit m))"
  by (auto simp: coast_exit_def)

lemma burn_prepare_run:
  assumes "future m = x # rest"
  shows "\<exists>m'. burn_prepare cfg m = Proceed m' \<and> cur m' = x \<and> future m' = rest \<and>
           \<not> fuel_empty m' \<and> recorder m' = recorder m \<and>
           sections (out m') = sections (out m) @ [''Phase 6: Orbital manoeuvre''] \<and>
           set (out m) \<subseteq> set (out m')"
  using assms
  by (auto simp: burn_prepare_def pause_Cons and_then_def Let_def status_note_def
           split: sum.splits error.splits)

lemma recorder_kept [simp]:
  "recorder (gravity_turn_entry m) = recorder m" "recorder (engine_cutoff m) = recorder m"
  "recorder (deploy_solar_panels cfg m) = recorder m" "recorder (coast_entry m) = recorder m"
  "recorder (coast_exit m) = recorder m"
  by (simp_all add: gravity_turn_entry_def engine_cutoff_def deploy_solar_panels_def
        coast_entry_def coast_exit_def split_def Let_def)

lemma summary_saved: "recorder m \<Longrightarrow> data_saved cfg \<in> set (out (summary cfg m))"
  by (simp add: summary_def finish_def)

lemma burn_exit_out: "set (out m) \<subseteq> set (out (burn_exit m))"
  by (auto simp: burn_exit_def status_note_def)

lemma summary_out:
  "set (out m) \<subseteq> set (out (summary cfg m))"
  "set (analyse_result (fuel_empty m) (periapsis (cur m))) \<subseteq> set (out (summary cfg m))"
  by (auto simp: summary_def finish_def orbit_report_def Let_def)


lemma nonempty_trace: "\<exists>x xs. pre @ s # rest = x # xs"
  by (cases pre) auto

lemma nominal_run:
  assumes conn: "connect cfg = Inr ()"
    and trace: "ss = i1 # i2 # i3 # i4 # G @ g # w1 # A @ a # C @ c # B @ b # rest"
    and G: "\<forall>x \<in> set G. altitude x < 10000" and g: "10000 \<le> altitude g"
    and A: "\<forall>x \<in> set A. apoapsis x < 80000" and a: "80000 \<le> apoapsis a"
    and C: "\<forall>x \<in> set (a # C). altitude x < 78000" and c: "78000 \<le> altitude c"
    and B: "\<forall>x \<in> set B. periapsis x < 75000 \<and> 0.1 < fuel x \<and> 0.1 < oxidizer x"
    and b: "75000 \<le> periapsis b"
  shows "\<exists>m. main cfg s0 ss = Completed m \<and>
           phases m = [Ignition, GravityTurn, PoweredAscentToTargetApoapsis, CoastToApoapsis,
                       CircularizationBurn, MissionSummary] \<and>
           cur m = b \<and> future m = rest \<and> \<not> fuel_empty m \<and>
           say ''[ok] 10 km reached (%.1f km)'' [Num (altitude g / 1000)] \<in> set (out m) \<and>
           say ''[ok] Apoapsis %.1f km reached'' [Num (apoapsis a / 1000)] \<in> set (out m) \<and>
           say ''[ok] Altitude %.1f km reached'' [Num (altitude c / 1000)] \<in> set (out m) \<and>
           set (analyse_result False (periapsis b)) \<subseteq> set (out m) \<and>
           analyse_result False (periapsis b) =
             announcement (if periapsis b \<le> 76000 then SuccessHighPrecision
                           else SuccessAcceptablePrecision) (periapsis b) \<and>
           (\<not> isl (recorder_ctor cfg) \<longrightarrow> data_saved cfg \<in> set (out m))"
proof -
  define T4 where "T4 = B @ b # rest"
  define T3 where "T3 = C @ c # T4"
  define T2 where "T2 = A @ a # T3"
  define T1 where "T1 = G @ g # w1 # T2"
  have ss: "ss = i1 # i2 # i3 # i4 # T1"
    by (simp add: trace T1_def T2_def T3_def T4_def)
  define m0 where "m0 = emit (greeting cfg @ [say ''[ok] Connected to KSP!'' []]) (initial s0 ss)"
  have m0: "cur m0 = s0" "future m0 = ss" "\<not> fuel_empty m0" "sections (out m0) = []"
    "\<not> recorder m0"
    by (simp_all add: m0_def initial_def greeting_def)
  define m1 where "m1 = start cfg m0"
  have m1: "future m1 = i1 # i2 # i3 # i4 # T1" "\<not> fuel_empty m1"
    "sections (out m1) = [''Vessel information'']"
    "recorder m1 \<longleftrightarrow> \<not> isl (recorder_ctor cfg)"
    by (simp_all add: m1_def m0 ss)
  from ignition_run [OF m1(1)] obtain m2 where m2: "ignition m1 = Proceed m2" "future m2 = T1"
    "\<not> fuel_empty m2" "sections (out m2) = [''Vessel information'', ''Phase 1: Engine start'']"
    "recorder m2 = recorder m1"
    using m1 by auto
  obtain x1 xs1 where t1: "T1 = x1 # xs1"
    unfolding T1_def using nonempty_trace [of G g "w1 # T2"] by blast
  from sas_radial_out_run [of m2 x1 xs1 cfg] obtain m3 where m3:
    "sas_radial_out cfg m2 = Proceed m3" "cur m3 # future m3 = G @ g # (w1 # T2)"
    "\<not> fuel_empty m3" "sections (out m3) = [''Vessel information'', ''Phase 1: Engine start'']"
    "recorder m3 = recorder m2"
    using m2 t1 T1_def by auto
  have e3: "cur (gravity_turn_entry m3) # future (gravity_turn_entry m3) = G @ g # (w1 # T2)"
    using m3(2) by simp
  from gravity_turn_loop_run [OF e3 G g] obtain m4 where m4:
    "gravity_turn_loop (gravity_turn_entry m3) = Proceed m4" "cur m4 = g" "future m4 = w1 # T2"
    "\<not> fuel_empty m4"
    "sections (out m4) = [''Vessel information'', ''Phase 1: Engine start'', ''Phase 2: Gravity turn'']"
    "recorder m4 = recorder m3"
    using m3 by auto
  obtain x2 xs2 where t2: "T2 = x2 # xs2"
    unfolding T2_def using nonempty_trace [of A a T3] by blast
  have f4: "future m4 = w1 # x2 # xs2" using m4(3) t2 by simp
  from pitch_over_run [OF f4] obtain m5 where m5: "pitch_over m4 = Proceed m5"
    "cur m5 # future m5 = A @ a # T3" "\<not> fuel_empty m5"
    "sections (out m5) = [''Vessel information'', ''Phase 1: Engine start'', ''Phase 2: Gravity turn'']"
    "recorder m5 = recorder m4"
    using m4 t2 T2_def by auto
  have l5: "say ''[ok] 10 km reached (%.1f km)'' [Num (altitude g / 1000)] \<in> set (out m5)"
    using pitch_over_log [OF f4] m5(1) m4(2) by simp
  have e5: "cur (ascent_entry m5) # future (ascent_entry m5) = A @ a # T3"
    using m5(2) by simp
  from ascent_loop_run [OF e5 A a] obtain m6 where m6:
    "ascent_loop (ascent_entry m5) = Proceed m6" "cur m6 = a" "future m6 = T3"
    "\<not> fuel_empty m6"
    "sections (out m6) = [''Vessel information'', ''Phase 1: Engine start'',
       ''Phase 2: Gravity turn'', ''Phase 3: Ascent to 80 km apoapsis'']"
    "set (out (ascent_entry m5)) \<subseteq> set (out m6)"
    "recorder m6 = recorder m5"
    using m5 by auto
  have l6: "say ''[ok] 10 km reached (%.1f km)'' [Num (altitude g / 1000)] \<in> set (out m6)"
    using l5 m6(6) ascent_entry_sections(2) [of m5] by blast
  define m7 where "m7 = coast_entry (deploy_solar_panels cfg (engine_cutoff m6))"
  have m7: "cur m7 # future m7 = (a # C) @ c # T4" "\<not> fuel_empty m7"
    "sections (out m7) = [''Vessel information'', ''Phase 1: Engine start'',
       ''Phase 2: Gravity turn'', ''Phase 3: Ascent to 80 km apoapsis'',
       ''Phase 4: Systems deployment'', ''Phase 5: Waiting for apoapsis'']"
    "recorder m7 = recorder m6"
    by (simp_all add: m7_def m6 T3_def)
  have s7: "set (out m6) \<subseteq> set (out m7)"
    unfolding m7_def
    using engine_cutoff_fields(5) [of m6]
      deploy_solar_panels_fields(5) [of "engine_cutoff m6" cfg]
      coast_entry_fields(5) [of "deploy_solar_panels cfg (engine_cutoff m6)"]
    by blast
  have a7: "say ''[ok] Apoapsis %.1f km reached'' [Num (apoapsis a / 1000)] \<in> set (out m7)"
  proof -
    have "say ''[ok] Apoapsis %.1f km reached'' [Num (apoapsis (cur m6) / 1000)]
        \<in> set (out (engine_cutoff m6))"
      by (rule engine_cutoff_fields(6))
    then have "say ''[ok] Apoapsis %.1f km reached'' [Num (apoapsis (cur m6) / 1000)]
        \<in> set (out m7)"
      unfolding m7_def
      using deploy_solar_panels_fields(5) [of "engine_cutoff m6" cfg]
        coast_entry_fields(5) [of "deploy_solar_panels cfg (engine_cutoff m6)"]
      by blast
    then show ?thesis by (simp only: m6(2))
  qed
  from coast_loop_run [OF m7(1) C c] obtain m8 where m8:
    "coast_loop m7 = Proceed m8" "cur m8 = c" "future m8 = T4" "\<not> fuel_empty m8"
    "sections (out m8) = sections (out m7)" "set (out m7) \<subseteq> set (out m8)"
    "recorder m8 = recorder m7"
    using m7 by auto
  obtain x3 xs3 where t3: "T4 = x3 # xs3"
    unfolding T4_def using nonempty_trace [of B b rest] by blast
  have f9: "future (coast_exit m8) = x3 # xs3" using m8(3) t3 by simp
  from burn_prepare_run [OF f9, of cfg] obtain m10 where m10:
    "burn_prepare cfg (coast_exit m8) = Proceed m10" "cur m10 # future m10 = B @ b # rest"
    "\<not> fuel_empty m10"
    "sections (out m10) = sections (out m7) @ [''Phase 6: Orbital manoeuvre'']"
    "set (out (coast_exit m8)) \<subseteq> set (out m10)"
    "recorder m10 = recorder m8"
    using m8 t3 T4_def by auto
  have c9: "say ''[ok] Altitude %.1f km reached'' [Num (altitude c / 1000)] \<in> set (out m10)"
  proof -
    have "say ''[ok] Altitude %.1f km reached'' [Num (altitude (cur m8) / 1000)]
        \<in> set (out (coast_exit m8))"
      by (rule coast_exit_fields(6))
    then have "say ''[ok] Altitude %.1f km reached'' [Num (altitude (cur m8) / 1000)]
        \<in> set (out m10)"
      using m10(5) by blast
    then show ?thesis by (simp only: m8(2))
  qed
  have s9: "set (out m8) \<subseteq> set (out m10)"
    using coast_exit_fields(5) [of m8] m10(5) by blast
  from burn_loop_run [OF m10(2) B] obtain m11 where m11:
    "burn_loop m10 = burn_loop m11" "cur m11 = b" "future m11 = rest"
    "fuel_empty m11 = fuel_empty m10" "sections (out m11) = sections (out m10)"
    "recorder m11 = recorder m10"
    by blast
  have stop: "burn_loop m10 = Proceed m11"
    using m11(1,2) b by (simp add: burn_loop_stop)
  have s11: "set (out m10) \<subseteq> set (out m11)"
    using burn_loop_out [of m10] stop by simp
  define m12 where "m12 = summary cfg (burn_exit m11)"
  have m12: "cur m12 = b" "future m12 = rest" "\<not> fuel_empty m12"
    "sections (out m12) = sections (out m7) @ [''Phase 6: Orbital manoeuvre'', ''Mission results'']"
    by (simp_all add: m12_def m11 m10)
  have s12: "set (out m11) \<subseteq> set (out m12)"
    unfolding m12_def using burn_exit_out [of m11] summary_out(1) [of "burn_exit m11" cfg] by blast
  have an: "set (analyse_result False (periapsis b)) \<subseteq> set (out m12)"
    unfolding m12_def using summary_out(2) [of "burn_exit m11" cfg] m11 m10(3) by simp
  have fly: "fly cfg m0 = Proceed m12"
    by (simp add: fly_def and_then_def m1_def [symmetric] m2 m3 m4 m5 m6 m7_def [symmetric]
          m8 m10 stop m12_def)
  have main: "main cfg s0 ss = Completed m12"
    by (simp add: main_def conn m0_def [symmetric] fly)
  have ph: "phases m12 = [Ignition, GravityTurn, PoweredAscentToTargetApoapsis, CoastToApoapsis,
                       CircularizationBurn, MissionSummary]"
    by (simp add: phases_def m12 m7 List.map_filter_def phase_of_def)
  have cl: "analyse_result False (periapsis b) =
             announcement (if periapsis b \<le> 76000 then SuccessHighPrecision
                           else SuccessAcceptablePrecision) (periapsis b)"
    using b by (simp add: analyse_result_def)
  have l12: "say ''[ok] 10 km reached (%.1f km)'' [Num (altitude g / 1000)] \<in> set (out m12)"
    using l6 s7 m8(6) s9 s11 s12 by blast
  have a12: "say ''[ok] Apoapsis %.1f km reached'' [Num (apoapsis a / 1000)] \<in> set (out m12)"
    using a7 m8(6) s9 s11 s12 by blast
  have c12: "say ''[ok] Altitude %.1f km reached'' [Num (altitude c / 1000)] \<in> set (out m12)"
    using c9 s11 s12 by blast
  have rc: "recorder (burn_exit m11) \<longleftrightarrow> \<not> isl (recorder_ctor cfg)"
    using m11(6) m10(6) m8(7) m7(4) m6(7) m5(5) m4(6) m3(5) m2(5) m1(4) by simp
  have sv: "\<not> isl (recorder_ctor cfg) \<longrightarrow> data_saved cfg \<in> set (out m12)"
    unfolding m12_def using rc summary_saved [of "burn_exit m11" cfg] by blast
  show ?thesis
    using main ph m12(1,2,3) l12 a12 c12 an cl sv by (intro exI [of _ m12] conjI)
qed

text \<open>
  C4. Let the connection succeed and the telemetry after the start be: four snapshots for
  the countdown and the engine start; snapshots \<open>G\<close> below 10000 of altitude, then \<open>g\<close>
  at 10000 or above; one snapshot during the turn; snapshots \<open>A\<close> with the apoapsis below
  80000, then \<open>a\<close> at 80000 or above, with \<open>a\<close> and the snapshots \<open>C\<close> after it below 78000
  of altitude, then \<open>c\<close> at 78000 or above; snapshots \<open>B\<close> with the periapsis below 75000
  and fuel and oxidizer above 0.1, then \<open>b\<close> with the periapsis at 75000 or above. Then
  the script runs to its end, through Ignition, GravityTurn, PoweredAscentToTargetApoapsis,
  CoastToApoapsis, CircularizationBurn and MissionSummary in this order; the waits end on
  \<open>g\<close>, \<open>a\<close>, \<open>c\<close> and \<open>b\<close>, the first readings at their thresholds; and the outcome
  announced is a success.
\<close>

theorem nominal_mission:
  assumes "connect cfg = Inr ()"
    and "ss = i1 # i2 # i3 # i4 # G @ g # w1 # A @ a # C @ c # B @ b # rest"
    and "\<forall>x \<in> set G. altitude x < 10000" and "10000 \<le> altitude g"
    and "\<forall>x \<in> set A. apoapsis x < 80000" and "80000 \<le> apoapsis a"
    and "\<forall>x \<in> set (a # C). altitude x < 78000" and "78000 \<le> altitude c"
    and "\<forall>x \<in> set B. periapsis x < 75000 \<and> 0.1 < fuel x \<and> 0.1 < oxidizer x"
    and "75000 \<le> periapsis b"
  shows "\<exists>m. main cfg s0 ss = Completed m \<and>
           phases m = [Ignition, GravityTurn, PoweredAscentToTargetApoapsis, CoastToApoapsis,
                       CircularizationBurn, MissionSummary] \<and>
           cur m = b \<and> future m = rest \<and> \<not> fuel_empty m \<and>
           say ''[ok] 10 km reached (%.1f km)'' [Num (altitude g / 1000)] \<in> set (out m) \<and>
           say ''[ok] Apoapsis %.1f km reached'' [Num (apoapsis a / 1000)] \<in> set (out m) \<and>
           say ''[ok] Altitude %.1f km reached'' [Num (altitude c / 1000)] \<in> set (out m) \<and>
           set (analyse_result False (periapsis b)) \<subseteq> set (out m) \<and>
           analyse_result False (periapsis b) =
             announcement (if periapsis b \<le> 76000 then SuccessHighPrecision
                           else SuccessAcceptablePrecision) (periapsis b)"
  using nominal_run [OF assms, of s0] by blast


theorem nominal_mission_witness:
  "\<exists>m. main nominal on_pad
         [on_pad, on_pad, on_pad, on_pad,
          on_pad\<lparr>altitude := 5000\<rparr>, on_pad\<lparr>altitude := 10000\<rparr>, on_pad\<lparr>altitude := 10200\<rparr>,
          on_pad\<lparr>altitude := 10500, apoapsis := 20000, pitch := 70\<rparr>,
          on_pad\<lparr>altitude := 40000, apoapsis := 80000\<rparr>,
          on_pad\<lparr>altitude := 74000, apoapsis := 80000\<rparr>,
          on_pad\<lparr>altitude := 78000, apoapsis := 80000\<rparr>,
          on_pad\<lparr>altitude := 79000, apoapsis := 80000, periapsis := 20000\<rparr>,
          on_pad\<lparr>altitude := 79500, apoapsis := 80000, periapsis := 75000\<rparr>] = Completed m \<and>
       phases m = [Ignition, GravityTurn, PoweredAscentToTargetApoapsis, CoastToApoapsis,
                   CircularizationBurn, MissionSummary] \<and>
       future m = [] \<and>
       set (announcement SuccessHighPrecision 75000) \<subseteq> set (out m)"
proof -
  let ?G = "[on_pad\<lparr>altitude := 5000\<rparr>]"
  let ?g = "on_pad\<lparr>altitude := 10000\<rparr>"
  let ?w1 = "on_pad\<lparr>altitude := 10200\<rparr>"
  let ?A = "[on_pad\<lparr>altitude := 10500, apoapsis := 20000, pitch := 70\<rparr>]"
  let ?a = "on_pad\<lparr>altitude := 40000, apoapsis := 80000\<rparr>"
  let ?C = "[on_pad\<lparr>altitude := 74000, apoapsis := 80000\<rparr>]"
  let ?c = "on_pad\<lparr>altitude := 78000, apoapsis := 80000\<rparr>"
  let ?B = "[on_pad\<lparr>altitude := 79000, apoapsis := 80000, periapsis := 20000\<rparr>]"
  let ?b = "on_pad\<lparr>altitude := 79500, apoapsis := 80000, periapsis := 75000\<rparr>"
  let ?ss = "on_pad # on_pad # on_pad # on_pad # ?G @ ?g # ?w1 # ?A @ ?a # ?C @ ?c # ?B @ ?b # []"
  have 1: "connect nominal = Inr ()" by (simp add: nominal_def)
  have 2: "\<forall>x \<in> set ?G. altitude x < 10000" by simp
  have 3: "10000 \<le> altitude ?g" by simp
  have 4: "\<forall>x \<in> set ?A. apoapsis x < 80000" by simp
  have 5: "80000 \<le> apoapsis ?a" by simp
  have 6: "\<forall>x \<in> set (?a # ?C). altitude x < 78000" by simp
  have 7: "78000 \<le> altitude ?c" by simp
  have 8: "\<forall>x \<in> set ?B. periapsis x < 75000 \<and> 0.1 < fuel x \<and> 0.1 < oxidizer x"
    by (simp add: on_pad_def)
  have 9: "75000 \<le> periapsis ?b" by simp
  have t: "?ss = on_pad # on_pad # on_pad # on_pad # ?G @ ?g # ?w1 # ?A @ ?a # ?C @ ?c # ?B @ ?b # []"
    by (rule refl)
  from nominal_mission [OF 1 t 2 3 4 5 6 7 8 9, of on_pad]
  obtain m where "main nominal on_pad ?ss = Completed m"
    "phases m = [Ignition, GravityTurn, PoweredAscentToTargetApoapsis, CoastToApoapsis,
                   CircularizationBurn, MissionSummary]"
    "future m = []"
    "set (analyse_result False (periapsis ?b)) \<subseteq> set (out m)"
    "analyse_result False (periapsis ?b) =
       announcement (if periapsis ?b \<le> 76000 then SuccessHighPrecision
                     else SuccessAcceptablePrecision) (periapsis ?b)"
    by blast
  then show ?thesis by (intro exI [of _ m]) simp
qed

end
